theory Spec2Isabelle
  imports Complex_Main "HOL-Library.Char_ord" "HOL-Library.List_Lexorder"
    "HOL-Library.Product_Lexorder" "HOL-Library.Log_Nat"
begin

section \<open>Data model of appdashboard.py\<close>

text \<open>
  A cell of a pandas DataFrame as the dashboard meets it: text read from the sheet
  (\<open>Txt\<close>), a parsed timestamp (\<open>Stamp day nanos\<close>, the day as the proleptic Gregorian
  ordinal of \<open>datetime.date.toordinal\<close>), a \<open>datetime.date\<close> (\<open>Day\<close>, what \<open>.dt.date\<close>
  yields) and the missing value (\<open>Null\<close>: NaN, NaT or None).
\<close>

datatype cell = Txt string | Stamp int nat | Day int | Null

text \<open>
  A DataFrame: its column labels in order, and its rows in order. A row gives the value
  of every column label; only the labels in \<open>columns\<close> belong to the frame.
\<close>

record frame =
  columns :: "string list"
  rows :: "(string \<Rightarrow> cell) list"

text \<open>
  Python objects are shared by reference: \<open>st.session_state.df_rips\<close> and the parameter
  \<open>df\<close> of \<open>procesar_y_graficar\<close> are the same DataFrame object. The store maps object
  addresses to DataFrames; \<open>fresh\<close> is the next unused address.
\<close>

record store =
  objs :: "nat \<Rightarrow> frame"
  fresh :: nat

text \<open>\<open>st.session_state\<close>: each dataset is a reference to a DataFrame, or None.\<close>

record session_state =
  df_ppl :: "nat option"
  df_convenios :: "nat option"
  df_rips :: "nat option"
  df_facturacion :: "nat option"

text \<open>
  The module-level filter selections read by \<open>procesar_y_graficar\<close> (lines 67, 78-81),
  together with the library parser \<open>pd.to_datetime(..., errors='coerce')\<close>, which is not
  code of this repository and is taken as a parameter: given the whole column (pandas
  infers one format for the column) and one value, it yields the parsed day and time of
  day, or None where pandas yields NaT.

  \<open>value_counts\<close> sorts its table of counts with the library's default quicksort, which
  puts larger counts first and does not say in which order it leaves equal counts. That
  order is a parameter too: \<open>desempate\<close> gives, for the table being sorted, a rank to
  each of its rows, and the rank decides only between rows of equal count. Whatever the
  library does on a table is some such rank.
\<close>

record entorno =
  tipo_legalizacion :: "cell list"
  sel_usuarios :: "cell list"
  start_date :: int
  end_date :: int
  to_datetime :: "cell list \<Rightarrow> cell \<Rightarrow> (int \<times> nat) option"
  desempate :: "(cell \<times> nat) list \<Rightarrow> cell \<times> nat \<Rightarrow> nat"

datatype error = KeyError string

text \<open>
  What one call hands to the rendering layer: the \<open>st.info\<close> of line 87, the \<open>st.info\<close>
  of line 171, the \<open>st.warning\<close> of line 110, the general mode (metric, then one row per
  operator: name, count, percentage) or the comparative mode (metric, the day-by-operator
  table when there is a date column, and the summary of the selected operators).
\<close>

datatype vista =
    NoHayDatosCargados
  | SincronizaLosDatos
  | NoHayDatosConFiltros
  | ModoGeneral nat "(cell \<times> nat \<times> rat) list"
  | ModoComparativo nat "((cell \<times> cell) \<times> nat) list option" "(cell \<times> nat) list"

section \<open>The pandas operations the dashboard uses\<close>

definition new_obj :: "frame \<Rightarrow> store \<Rightarrow> nat \<times> store" where
  "new_obj f s = (fresh s, s\<lparr>objs := (objs s)(fresh s := f), fresh := Suc (fresh s)\<rparr>)"

definition put_obj :: "nat \<Rightarrow> frame \<Rightarrow> store \<Rightarrow> store" where
  "put_obj a f s = s\<lparr>objs := (objs s)(a := f)\<rparr>"

text \<open>\<open>df.empty\<close>: true when either axis has length zero.\<close>

definition empty_df :: "frame \<Rightarrow> bool" where
  "empty_df df = (columns df = [] \<or> rows df = [])"

text \<open>\<open>df[c]\<close> as a list of values (the caller checks that the label exists).\<close>

definition col_values :: "string \<Rightarrow> frame \<Rightarrow> cell list" where
  "col_values c df = map (\<lambda>r. r c) (rows df)"

text \<open>\<open>df[mask]\<close>: a new DataFrame with the rows where the mask holds, in order.\<close>

definition select_rows :: "((string \<Rightarrow> cell) \<Rightarrow> bool) \<Rightarrow> frame \<Rightarrow> frame" where
  "select_rows p df = \<lparr>columns = columns df, rows = filter p (rows df)\<rparr>"

text \<open>\<open>series.isin(values)\<close>, elementwise.\<close>

definition isin :: "cell list \<Rightarrow> cell \<Rightarrow> bool" where
  "isin vs v = (v \<in> set vs)"

text \<open>
  \<open>df[c] = values\<close>, the values computed row by row: the column is replaced, or
  appended to the labels when it is new.
\<close>

definition assign :: "string \<Rightarrow> ((string \<Rightarrow> cell) \<Rightarrow> cell) \<Rightarrow> frame \<Rightarrow> frame" where
  "assign c g df =
     \<lparr>columns = (if c \<in> set (columns df) then columns df else columns df @ [c]),
      rows = map (\<lambda>r. r(c := g r)) (rows df)\<rparr>"

text \<open>\<open>df.dropna(subset=[c])\<close>.\<close>

definition dropna :: "string \<Rightarrow> frame \<Rightarrow> frame" where
  "dropna c df = select_rows (\<lambda>r. r c \<noteq> Null) df"

text \<open>\<open>pd.to_datetime(df[c], errors='coerce')\<close> for one value of the column.\<close>

definition coerce_datetime :: "entorno \<Rightarrow> cell list \<Rightarrow> cell \<Rightarrow> cell" where
  "coerce_datetime e col v =
     (case to_datetime e col v of None \<Rightarrow> Null | Some (d, t) \<Rightarrow> Stamp d t)"

text \<open>\<open>series.dt.date\<close> for one value.\<close>

definition dt_date :: "cell \<Rightarrow> cell" where
  "dt_date v = (case v of Stamp d t \<Rightarrow> Day d | _ \<Rightarrow> Null)"

text \<open>
  The mask of line 102 for one value:
  \<open>(df[col_f].dt.date >= start_date) & (df[col_f].dt.date <= end_date)\<close>.
\<close>

definition en_rango :: "entorno \<Rightarrow> cell \<Rightarrow> bool" where
  "en_rango e v =
     (case dt_date v of Day d \<Rightarrow> start_date e \<le> d \<and> d \<le> end_date e | _ \<Rightarrow> False)"

text \<open>The distinct values of a list, in the order of their first appearance.\<close>

definition unique :: "'a list \<Rightarrow> 'a list" where
  "unique xs = rev (remdups (rev xs))"

text \<open>
  \<open>series.value_counts()\<close>: missing values are dropped, the distinct values are counted,
  and the table of counts is sorted, larger counts first; rows of equal count stand in
  the order of the rank the library's sort leaves them in.
\<close>

definition value_counts ::
  "((cell \<times> nat) list \<Rightarrow> cell \<times> nat \<Rightarrow> nat) \<Rightarrow> cell list \<Rightarrow> (cell \<times> nat) list" where
  "value_counts rank vs =
     (let xs = filter (\<lambda>v. v \<noteq> Null) vs;
          tabla = map (\<lambda>u. (u, count_list xs u)) (unique xs)
      in sort_key (\<lambda>p. (- int (snd p), rank tabla p)) tabla)"

text \<open>
  The order of group keys. Text compares as Python strings do, by code point; the
  dashboard groups by a date and an operator name.
\<close>

definition cell_rank :: "cell \<Rightarrow> nat \<times> string \<times> int \<times> nat" where
  "cell_rank v =
     (case v of Txt s \<Rightarrow> (0, s, 0, 0) | Day d \<Rightarrow> (1, [], d, 0)
      | Stamp d t \<Rightarrow> (2, [], d, t) | Null \<Rightarrow> (3, [], 0, 0))"

text \<open>
  \<open>df.groupby([c1, c2]).size().reset_index(name=...)\<close>: rows with a missing key are
  dropped, one row per distinct key pair with its number of rows, sorted by key.
\<close>

definition groupby_size :: "string \<Rightarrow> string \<Rightarrow> frame \<Rightarrow> ((cell \<times> cell) \<times> nat) list" where
  "groupby_size c1 c2 df =
     (let ks = filter (\<lambda>k. fst k \<noteq> Null \<and> snd k \<noteq> Null) (map (\<lambda>r. (r c1, r c2)) (rows df))
      in map (\<lambda>k. (k, count_list ks k))
           (sort_key (\<lambda>k. (cell_rank (fst k), cell_rank (snd k))) (unique ks)))"

text \<open>
  The percentages are 64-bit floats. A float is the rational number it stands for, and
  every operation of the program rounds its exact result to the nearest float, halves to
  the even significand (\<open>fl\<close>). A float other than zero with
  \<open>2 ^ e \<le> \<bar>x\<bar> < 2 ^ (e + 1)\<close> is a multiple of \<open>2 ^ (e - 52)\<close>. The exponent
  range is not bounded here: the values are counts, shares and percentages, far from
  overflow and from the subnormal floats.
\<close>

definition exponente :: "rat \<Rightarrow> int" where
  "exponente x =
     (case quotient_of \<bar>x\<bar> of
        (p, q) \<Rightarrow> (let d = bitlen p - bitlen q in if (2::rat) powi d \<le> \<bar>x\<bar> then d else d - 1))"

text \<open>\<open>np.rint\<close>: the nearest integer, halves to the even one.\<close>

definition round_half_even :: "rat \<Rightarrow> int" where
  "round_half_even x =
     (let f = \<lfloor>x\<rfloor>; d = x - of_int f
      in if d < 1 / 2 then f else if 1 / 2 < d then f + 1 else if even f then f else f + 1)"

definition fl :: "rat \<Rightarrow> rat" where
  "fl x =
     (if x = 0 then 0
      else (let u = (2::rat) powi (exponente x - 52) in of_int (round_half_even (x / u)) * u))"

text \<open>
  \<open>series.round(2)\<close> on floats is numpy's \<open>rint(x * 100) / 100\<close>, each step a float
  operation.
\<close>

definition round2 :: "rat \<Rightarrow> rat" where
  "round2 x = fl (of_int (round_half_even (fl (x * 100))) / 100)"

text \<open>
  Line 131 for one row: the count and the total are 64-bit integers, converted to
  floats by the division; \<open>count / total * 100\<close> and the rounding follow.
\<close>

definition porcentaje :: "nat \<Rightarrow> nat \<Rightarrow> rat" where
  "porcentaje c t = round2 (fl (fl (fl (of_nat c) / fl (of_nat t)) * 100))"

text \<open>
  \<open>pd.concat(frames, ignore_index=True)\<close>: the labels are the union in order of first
  appearance, the rows are those of each frame in turn, a label a frame does not have
  being missing in its rows.
\<close>

definition reindex_row :: "string list \<Rightarrow> (string \<Rightarrow> cell) \<Rightarrow> string \<Rightarrow> cell" where
  "reindex_row cs r = (\<lambda>c. if c \<in> set cs then r c else Null)"

definition concat_frames :: "frame list \<Rightarrow> frame" where
  "concat_frames fs =
     \<lparr>columns = unique (concat (map columns fs)),
      rows = concat (map (\<lambda>f. map (reindex_row (columns f)) (rows f)) fs)\<rparr>"

section \<open>procesar_y_graficar\<close>

text \<open>Lines 91 and 92: the operator column and the event-date column.\<close>

definition resolver_col_u :: "frame \<Rightarrow> string" where
  "resolver_col_u df = (if ''USUARIO'' \<in> set (columns df) then ''USUARIO'' else ''Usuario'')"

definition resolver_col_f :: "frame \<Rightarrow> string option" where
  "resolver_col_f df =
     find (\<lambda>c. c \<in> set (columns df)) [''FECHA_REAL'', ''FECHA_FACTURA'', ''FECHA'', ''Fecha'']"

text \<open>Lines 95-96: \<open>df\<close> is rebound to a new frame when the category filter applies.\<close>

definition filtro_tipo :: "entorno \<Rightarrow> bool \<Rightarrow> nat \<Rightarrow> store \<Rightarrow> nat \<times> store" where
  "filtro_tipo e es_legalizacion df s =
     (if es_legalizacion \<and> ''Tipo_Leg'' \<in> set (columns (objs s df))
      then new_obj (select_rows (\<lambda>r. isin (tipo_legalizacion e) (r ''Tipo_Leg'')) (objs s df)) s
      else (df, s))"

text \<open>
  Lines 99-102. Line 100 assigns the parsed column into the object \<open>df\<close> refers to;
  lines 101 and 102 each rebind \<open>df\<close> to a new frame.
\<close>

definition filtro_fecha :: "entorno \<Rightarrow> string option \<Rightarrow> nat \<Rightarrow> store \<Rightarrow> nat \<times> store" where
  "filtro_fecha e col_f df s =
     (case col_f of
        None \<Rightarrow> (df, s)
      | Some c \<Rightarrow>
          (let s1 = put_obj df
                 (assign c (\<lambda>r. coerce_datetime e (col_values c (objs s df)) (r c)) (objs s df)) s
           in case new_obj (dropna c (objs s1 df)) s1 of
                (df1, s2) \<Rightarrow> new_obj (select_rows (\<lambda>r. en_rango e (r c)) (objs s2 df1)) s2))"

text \<open>Line 105.\<close>

definition es_filtro_activo :: "entorno \<Rightarrow> bool" where
  "es_filtro_activo e = (Txt ''Todos'' \<notin> set (sel_usuarios e) \<and> length (sel_usuarios e) > 0)"

text \<open>Lines 106-107: \<open>df[col_u]\<close> raises KeyError when the label is missing.\<close>

definition filtro_usuario :: "entorno \<Rightarrow> string \<Rightarrow> nat \<Rightarrow> store \<Rightarrow> (error + nat) \<times> store" where
  "filtro_usuario e col_u df s =
     (if es_filtro_activo e
      then (if col_u \<in> set (columns (objs s df))
            then (case new_obj (select_rows (\<lambda>r. isin (sel_usuarios e) (r col_u)) (objs s df)) s of
                    (df1, s1) \<Rightarrow> (Inr df1, s1))
            else (Inl (KeyError col_u), s))
      else (Inr df, s))"

text \<open>Line 131: \<open>counts['%'] = (counts['Conteo'] / counts['Conteo'].sum() * 100).round(2)\<close>.\<close>

definition tabla_porcentual :: "(cell \<times> nat) list \<Rightarrow> (cell \<times> nat \<times> rat) list" where
  "tabla_porcentual counts =
     (let total = sum_list (map snd counts)
      in map (\<lambda>p. (fst p, snd p, porcentaje (snd p) total)) counts)"

text \<open>Lines 117-132: the bar chart's counts and the percentage table.\<close>

definition modo_general :: "entorno \<Rightarrow> string \<Rightarrow> frame \<Rightarrow> error + vista" where
  "modo_general e col_u df =
     (if col_u \<in> set (columns df)
      then Inr (ModoGeneral (length (rows df))
             (tabla_porcentual (value_counts (desempate e) (col_values col_u df))))
      else Inl (KeyError col_u))"

text \<open>
  Lines 135-151. Line 138 assigns the column \<open>Dia_Evolucion\<close> into the object \<open>df\<close>
  refers to; the summary of line 149 is computed from that same frame.
\<close>

definition modo_comparativo ::
  "entorno \<Rightarrow> string \<Rightarrow> string option \<Rightarrow> nat \<Rightarrow> store \<Rightarrow> (error + vista) \<times> store" where
  "modo_comparativo e col_u col_f df s =
     (case col_f of
        None \<Rightarrow>
          (if col_u \<in> set (columns (objs s df))
           then (Inr (ModoComparativo (length (rows (objs s df))) None
                   (value_counts (desempate e) (col_values col_u (objs s df)))), s)
           else (Inl (KeyError col_u), s))
      | Some c \<Rightarrow>
          (let s1 = put_obj df (assign ''Dia_Evolucion'' (\<lambda>r. dt_date (r c)) (objs s df)) s
           in if col_u \<in> set (columns (objs s1 df))
              then (Inr (ModoComparativo (length (rows (objs s df)))
                      (Some (groupby_size ''Dia_Evolucion'' col_u (objs s1 df)))
                      (value_counts (desempate e) (col_values col_u (objs s1 df)))), s1)
              else (Inl (KeyError col_u), s1)))"

text \<open>
  Lines 85-151. The result is what is handed to the rendering layer, or the exception
  that leaves the function, together with the store the call leaves behind.
\<close>

definition procesar_y_graficar ::
  "entorno \<Rightarrow> nat option \<Rightarrow> bool \<Rightarrow> store \<Rightarrow> (error + vista) \<times> store" where
  "procesar_y_graficar e df es_legalizacion s =
     (case df of
        None \<Rightarrow> (Inr NoHayDatosCargados, s)
      | Some df0 \<Rightarrow>
          if empty_df (objs s df0) then (Inr NoHayDatosCargados, s)
          else
            (let col_u = resolver_col_u (objs s df0);
                 col_f = resolver_col_f (objs s df0)
             in case filtro_tipo e es_legalizacion df0 s of
                  (df1, s1) \<Rightarrow>
                    (case filtro_fecha e col_f df1 s1 of
                       (df2, s2) \<Rightarrow>
                         (case filtro_usuario e col_u df2 s2 of
                            (Inl err, s3) \<Rightarrow> (Inl err, s3)
                          | (Inr df3, s3) \<Rightarrow>
                              if empty_df (objs s3 df3) then (Inr NoHayDatosConFiltros, s3)
                              else if \<not> es_filtro_activo e
                                then (modo_general e col_u (objs s3 df3), s3)
                                else modo_comparativo e col_u col_f df3 s3))))"

section \<open>The frames and the result of one call, as functions of the frame passed in\<close>

text \<open>
  The frame \<open>df\<close> refers to after lines 95-96 (\<open>tipo_df\<close>), the frame the parameter
  object holds after line 100 (\<open>parsed_df\<close>), the frame \<open>df\<close> refers to after line 102
  (\<open>fecha_df\<close>) and after line 107 (\<open>usuario_df\<close>, \<open>filtrado\<close>: the filtered record
  set), what lines 135-151 hand over (\<open>comparativo\<close>) and what the call hands over
  (\<open>resultado\<close>). The lemmas below prove that \<open>procesar_y_graficar\<close> computes them.
\<close>

definition tipo_df :: "entorno \<Rightarrow> bool \<Rightarrow> frame \<Rightarrow> frame" where
  "tipo_df e es_legalizacion f =
     (if es_legalizacion \<and> ''Tipo_Leg'' \<in> set (columns f)
      then select_rows (\<lambda>r. isin (tipo_legalizacion e) (r ''Tipo_Leg'')) f else f)"

definition parsed_df :: "entorno \<Rightarrow> string \<Rightarrow> frame \<Rightarrow> frame" where
  "parsed_df e c f = assign c (\<lambda>r. coerce_datetime e (col_values c f) (r c)) f"

definition fecha_df :: "entorno \<Rightarrow> string option \<Rightarrow> frame \<Rightarrow> frame" where
  "fecha_df e col_f f =
     (case col_f of None \<Rightarrow> f
      | Some c \<Rightarrow> select_rows (\<lambda>r. en_rango e (r c)) (dropna c (parsed_df e c f)))"

definition usuario_df :: "entorno \<Rightarrow> string \<Rightarrow> frame \<Rightarrow> frame" where
  "usuario_df e col_u f =
     (if es_filtro_activo e then select_rows (\<lambda>r. isin (sel_usuarios e) (r col_u)) f else f)"

definition filtrado :: "entorno \<Rightarrow> bool \<Rightarrow> frame \<Rightarrow> frame" where
  "filtrado e es_legalizacion f =
     usuario_df e (resolver_col_u f) (fecha_df e (resolver_col_f f) (tipo_df e es_legalizacion f))"

definition comparativo :: "entorno \<Rightarrow> string \<Rightarrow> string option \<Rightarrow> frame \<Rightarrow> error + vista" where
  "comparativo e col_u col_f f =
     (let f1 = (case col_f of None \<Rightarrow> f
                | Some c \<Rightarrow> assign ''Dia_Evolucion'' (\<lambda>r. dt_date (r c)) f)
      in if col_u \<in> set (columns f1)
         then Inr (ModoComparativo (length (rows f))
                (case col_f of None \<Rightarrow> None
                 | Some c \<Rightarrow> Some (groupby_size ''Dia_Evolucion'' col_u f1))
                (value_counts (desempate e) (col_values col_u f1)))
         else Inl (KeyError col_u))"

definition resultado :: "entorno \<Rightarrow> bool \<Rightarrow> frame \<Rightarrow> error + vista" where
  "resultado e leg f =
     (let col_u = resolver_col_u f; col_f = resolver_col_f f
      in if es_filtro_activo e \<and> col_u \<notin> set (columns f) then Inl (KeyError col_u)
         else if rows (filtrado e leg f) = [] then Inr NoHayDatosConFiltros
         else if \<not> es_filtro_activo e then modo_general e col_u (filtrado e leg f)
         else comparativo e col_u col_f (filtrado e leg f))"


section \<open>The three tabs\<close>

text \<open>
  Lines 158-169: each stored legalization dataset is copied, the copy is tagged with its
  type, and the tagged copies are concatenated. The result is the reference passed to
  \<open>procesar_y_graficar\<close>, or None when \<open>list_leg\<close> is empty.
\<close>

definition etiquetar :: "string \<Rightarrow> nat option \<Rightarrow> nat list \<Rightarrow> store \<Rightarrow> nat list \<times> store" where
  "etiquetar tipo stored list_leg s =
     (case stored of
        None \<Rightarrow> (list_leg, s)
      | Some a \<Rightarrow>
          (case new_obj (objs s a) s of
             (d, s1) \<Rightarrow>
               (list_leg @ [d], put_obj d (assign ''Tipo_Leg'' (\<lambda>r. Txt tipo) (objs s1 d)) s1)))"

definition legalizaciones :: "session_state \<Rightarrow> store \<Rightarrow> nat option \<times> store" where
  "legalizaciones ss s =
     (case etiquetar ''PPL'' (df_ppl ss) [] s of
        (l1, s1) \<Rightarrow>
          (case etiquetar ''Convenios'' (df_convenios ss) l1 s1 of
             (list_leg, s2) \<Rightarrow>
               if list_leg \<noteq> []
               then (case new_obj (concat_frames (map (objs s2) list_leg)) s2 of
                       (m, s3) \<Rightarrow> (Some m, s3))
               else (None, s2)))"

definition tab_leg :: "entorno \<Rightarrow> session_state \<Rightarrow> store \<Rightarrow> (error + vista) \<times> store" where
  "tab_leg e ss s =
     (case legalizaciones ss s of
        (Some m, s1) \<Rightarrow> procesar_y_graficar e (Some m) True s1
      | (None, s1) \<Rightarrow> (Inr SincronizaLosDatos, s1))"

definition tab_rips :: "entorno \<Rightarrow> session_state \<Rightarrow> store \<Rightarrow> (error + vista) \<times> store" where
  "tab_rips e ss s = procesar_y_graficar e (df_rips ss) False s"

definition tab_fact :: "entorno \<Rightarrow> session_state \<Rightarrow> store \<Rightarrow> (error + vista) \<times> store" where
  "tab_fact e ss s = procesar_y_graficar e (df_facturacion ss) False s"

text \<open>
  Lines 157-178: the tabs run one after the other in one script run; an exception that
  leaves a tab ends the run, so the later tabs are not computed. The result lists what
  each tab that ran produced.
\<close>

definition tabs :: "entorno \<Rightarrow> session_state \<Rightarrow> store \<Rightarrow> (error + vista) list \<times> store" where
  "tabs e ss s =
     (case tab_leg e ss s of
        (Inl err, s1) \<Rightarrow> ([Inl err], s1)
      | (Inr v1, s1) \<Rightarrow>
          (case tab_rips e ss s1 of
             (Inl err, s2) \<Rightarrow> ([Inr v1, Inl err], s2)
           | (Inr v2, s2) \<Rightarrow>
               (case tab_fact e ss s2 of
                  (r3, s3) \<Rightarrow> ([Inr v1, Inr v2, r3], s3))))"

section \<open>A concrete date parser for running the model\<close>

text \<open>
  \<open>pd.to_datetime\<close> restricted to the values the concrete runs below use: a timestamp
  or a date is kept, ISO text \<open>YYYY-MM-DD\<close> naming a calendar day that a pandas
  Timestamp can hold (years 1678 to 2261) is that day at midnight, and everything else is
  NaT. The ordinal of a day is computed as Python's \<open>datetime\<close> module does.
\<close>

definition digit_val :: "char \<Rightarrow> nat option" where
  "digit_val c =
     (let n = (of_char c :: nat) in if 48 \<le> n \<and> n \<le> 57 then Some (n - 48) else None)"

fun digits_val :: "nat \<Rightarrow> string \<Rightarrow> nat option" where
  "digits_val acc [] = Some acc"
| "digits_val acc (c # cs) =
     (case digit_val c of None \<Rightarrow> None | Some d \<Rightarrow> digits_val (acc * 10 + d) cs)"

definition is_leap :: "nat \<Rightarrow> bool" where
  "is_leap y = (y mod 4 = 0 \<and> (y mod 100 \<noteq> 0 \<or> y mod 400 = 0))"

definition days_in_month :: "nat \<Rightarrow> nat \<Rightarrow> nat" where
  "days_in_month y m =
     (if m = 2 then (if is_leap y then 29 else 28)
      else if m = 4 \<or> m = 6 \<or> m = 9 \<or> m = 11 then 30 else 31)"

definition days_before_year :: "nat \<Rightarrow> nat" where
  "days_before_year y = (y - 1) * 365 + (y - 1) div 4 - (y - 1) div 100 + (y - 1) div 400"

definition days_before_month :: "nat \<Rightarrow> nat \<Rightarrow> nat" where
  "days_before_month y m =
     [0, 0, 31, 59, 90, 120, 151, 181, 212, 243, 273, 304, 334] ! m
       + (if 2 < m \<and> is_leap y then 1 else 0)"

definition ymd2ord :: "nat \<Rightarrow> nat \<Rightarrow> nat \<Rightarrow> int" where
  "ymd2ord y m d = int (days_before_year y + days_before_month y m + d)"

definition fecha_iso :: "cell list \<Rightarrow> cell \<Rightarrow> (int \<times> nat) option" where
  "fecha_iso col v =
     (case v of
        Stamp d t \<Rightarrow> Some (d, t)
      | Day d \<Rightarrow> Some (d, 0)
      | Null \<Rightarrow> None
      | Txt s \<Rightarrow>
          if length s = 10 \<and> s ! 4 = CHR ''-'' \<and> s ! 7 = CHR ''-''
          then (case (digits_val 0 (take 4 s), digits_val 0 (take 2 (drop 5 s)),
                      digits_val 0 (drop 8 s)) of
                  (Some y, Some m, Some d) \<Rightarrow>
                    if 1678 \<le> y \<and> y \<le> 2261 \<and> 1 \<le> m \<and> m \<le> 12 \<and> 1 \<le> d
                       \<and> d \<le> days_in_month y m
                    then Some (ymd2ord y m d, 0) else None
                | _ \<Rightarrow> None)
          else None)"

text \<open>A row written as its labelled values; every other label is missing.\<close>

definition fila :: "(string \<times> cell) list \<Rightarrow> string \<Rightarrow> cell" where
  "fila kvs = (\<lambda>c. case map_of kvs c of None \<Rightarrow> Null | Some v \<Rightarrow> v)"

section \<open>Concrete inputs\<close>

text \<open>
  A filter state for January 2024 with the default operator selection, and a RIPS sheet
  of four records: one dated the first day, one the last day, one the day after, and one
  whose date is not a date. In the concrete runs the sort leaves rows of equal count as
  it finds them (every rank is 0), which is what the library's quicksort does on tables
  this small.
\<close>

definition ejemplo_entorno :: entorno where
  "ejemplo_entorno =
     \<lparr>tipo_legalizacion = [Txt ''PPL'', Txt ''Convenios''], sel_usuarios = [Txt ''Todos''],
      start_date = ymd2ord 2024 1 1, end_date = ymd2ord 2024 1 31, to_datetime = fecha_iso,
      desempate = (\<lambda>tabla p. 0)\<rparr>"

definition ejemplo_rips :: frame where
  "ejemplo_rips =
     \<lparr>columns = [''Usuario'', ''Fecha''],
      rows = [fila [(''Usuario'', Txt ''Ana''), (''Fecha'', Txt ''2024-01-01'')],
              fila [(''Usuario'', Txt ''Beto''), (''Fecha'', Txt ''2024-01-31'')],
              fila [(''Usuario'', Txt ''Ana''), (''Fecha'', Txt ''2024-02-01'')],
              fila [(''Usuario'', Txt ''Caro''), (''Fecha'', Txt ''sin fecha'')]]\<rparr>"

definition vacio :: frame where
  "vacio = \<lparr>columns = [], rows = []\<rparr>"

definition ejemplo_store :: store where
  "ejemplo_store = \<lparr>objs = (\<lambda>a. vacio)(0 := ejemplo_rips), fresh = 1\<rparr>"



text \<open>The same selections with the range 20 February 2024 to 1 January 2024.\<close>

definition invertido :: entorno where
  "invertido = ejemplo_entorno\<lparr>start_date := ymd2ord 2024 2 20, end_date := ymd2ord 2024 1 1\<rparr>"

text \<open>
  A sheet with no operator column, and a session where it is the RIPS dataset and the
  sheet above is the Facturacion dataset; a session that holds only the RIPS sheet above.
\<close>

definition sin_usuario :: frame where
  "sin_usuario =
     \<lparr>columns = [''Fecha''], rows = [fila [(''Fecha'', Txt ''2024-01-01'')]]\<rparr>"

definition ejemplo_sesion :: session_state where
  "ejemplo_sesion = \<lparr>df_ppl = None, df_convenios = None, df_rips = Some 1, df_facturacion = Some 0\<rparr>"

definition store_sin_usuario :: store where
  "store_sin_usuario = \<lparr>objs = (\<lambda>a. vacio)(0 := ejemplo_rips, 1 := sin_usuario), fresh = 2\<rparr>"

definition sesion_rips :: session_state where
  "sesion_rips = \<lparr>df_ppl = None, df_convenios = None, df_rips = Some 0, df_facturacion = None\<rparr>"


definition ejemplo_inverso :: entorno where
  "ejemplo_inverso =
     ejemplo_entorno\<lparr>desempate := (\<lambda>tabla p. length (takeWhile (\<lambda>q. q \<noteq> p) (rev tabla)))\<rparr>"

text \<open>
  Two sheets with only an operator column: one whose second record has no operator
  value, and one where two operators have one record each, Beto first.
\<close>

definition con_faltante :: frame where
  "con_faltante =
     \<lparr>columns = [''Usuario''], rows = [fila [(''Usuario'', Txt ''Ana'')], fila []]\<rparr>"

definition empate :: frame where
  "empate =
     \<lparr>columns = [''Usuario''],
      rows = [fila [(''Usuario'', Txt ''Beto'')], fila [(''Usuario'', Txt ''Ana'')]]\<rparr>"

definition store_ranking :: store where
  "store_ranking = \<lparr>objs = (\<lambda>a. vacio)(0 := con_faltante, 1 := empate), fresh = 2\<rparr>"





text \<open>
  Two operators selected, with a date range from 1 January to 20 February 2024.
\<close>

definition seleccion :: entorno where
  "seleccion =
     \<lparr>tipo_legalizacion = [Txt ''PPL'', Txt ''Convenios''],
      sel_usuarios = [Txt ''Ana'', Txt ''Beto''],
      start_date = ymd2ord 2024 1 1, end_date = ymd2ord 2024 2 20, to_datetime = fecha_iso,
      desempate = (\<lambda>tabla p. 0)\<rparr>"

section \<open>What a call computes\<close>

lemma filtro_tipo_frame:
  "objs (snd (filtro_tipo e leg a s)) (fst (filtro_tipo e leg a s)) = tipo_df e leg (objs s a)"
  by (simp add: filtro_tipo_def tipo_df_def new_obj_def)

lemma filtro_fecha_frame:
  "objs (snd (filtro_fecha e cf a s)) (fst (filtro_fecha e cf a s)) = fecha_df e cf (objs s a)"
  by (cases cf) (simp_all add: filtro_fecha_def fecha_df_def parsed_df_def new_obj_def put_obj_def
      Let_def)

lemma filtro_usuario_result:
  "fst (filtro_usuario e cu a s) =
     (if es_filtro_activo e \<and> cu \<notin> set (columns (objs s a)) then Inl (KeyError cu)
      else Inr (if es_filtro_activo e then fresh s else a))"
  by (simp add: filtro_usuario_def new_obj_def)

lemma filtro_usuario_frame:
  "fst (filtro_usuario e cu a s) = Inr b \<Longrightarrow>
     objs (snd (filtro_usuario e cu a s)) b = usuario_df e cu (objs s a)"
  by (auto simp add: filtro_usuario_def usuario_df_def new_obj_def split: if_splits)

lemma modo_comparativo_vista:
  "fst (modo_comparativo e cu cf a s) = comparativo e cu cf (objs s a)"
  by (cases cf) (simp_all add: modo_comparativo_def comparativo_def put_obj_def Let_def)

lemma columns_tipo_df [simp]: "columns (tipo_df e leg f) = columns f"
  by (simp add: tipo_df_def select_rows_def)

lemma columns_usuario_df [simp]: "columns (usuario_df e cu f) = columns f"
  by (simp add: usuario_df_def select_rows_def)

lemma columns_fecha_df: "cf = None \<or> (\<exists>c. cf = Some c \<and> c \<in> set (columns f)) \<Longrightarrow> columns (fecha_df e cf f) = columns f"
  by (auto simp add: fecha_df_def select_rows_def dropna_def parsed_df_def assign_def)

lemma resolver_col_f_in: "resolver_col_f f = Some c \<Longrightarrow> c \<in> set (columns f)"
  by (auto simp add: resolver_col_f_def split: if_splits)

lemma columns_filtered: "columns (fecha_df e (resolver_col_f f) (tipo_df e leg f)) = columns f"
  using columns_fecha_df[of "resolver_col_f f" "tipo_df e leg f" e] resolver_col_f_in[of f]
  by (cases "resolver_col_f f") auto

lemma procesar_vista:
  assumes "\<not> empty_df (objs s a)"
  shows "fst (procesar_y_graficar e (Some a) leg s) = resultado e leg (objs s a)"
proof -
  let ?f = "objs s a"
  let ?cu = "resolver_col_u ?f" and ?cf = "resolver_col_f ?f"
  obtain a1 s1 where t: "filtro_tipo e leg a s = (a1, s1)" by (cases "filtro_tipo e leg a s")
  obtain a2 s2 where d: "filtro_fecha e ?cf a1 s1 = (a2, s2)" by (cases "filtro_fecha e ?cf a1 s1")
  obtain r3 s3 where u: "filtro_usuario e ?cu a2 s2 = (r3, s3)" by (cases "filtro_usuario e ?cu a2 s2")
  have f1: "objs s1 a1 = tipo_df e leg ?f" using filtro_tipo_frame[of e leg a s] t by simp
  have f2: "objs s2 a2 = fecha_df e ?cf (tipo_df e leg ?f)"
    using filtro_fecha_frame[of e ?cf a1 s1] d f1 by simp
  have c2: "columns (objs s2 a2) = columns ?f" using f2 columns_filtered by simp
  have r3: "r3 = (if es_filtro_activo e \<and> ?cu \<notin> set (columns ?f) then Inl (KeyError ?cu)
      else Inr (if es_filtro_activo e then fresh s2 else a2))"
    using filtro_usuario_result[of e ?cu a2 s2] u c2 by simp
  have ne: "columns ?f \<noteq> []" using assms by (simp add: empty_df_def)
  show ?thesis
  proof (cases "es_filtro_activo e \<and> ?cu \<notin> set (columns ?f)")
    case True
    then show ?thesis using assms t d u r3
      by (simp add: procesar_y_graficar_def resultado_def Let_def)
  next
    case False
    then obtain b where b: "r3 = Inr b" using r3 by auto
    have f3: "objs s3 b = filtrado e leg ?f"
      using filtro_usuario_frame[of e ?cu a2 s2 b] u b f2 by (simp add: filtrado_def)
    have c3: "columns (filtrado e leg ?f) = columns ?f"
      using columns_filtered by (simp add: filtrado_def)
    have em: "empty_df (objs s3 b) = (rows (filtrado e leg ?f) = [])"
      using f3 c3 ne by (simp add: empty_df_def)
    show ?thesis using assms t d u b False em f3 modo_comparativo_vista[of e ?cu ?cf b s3]
      by (simp add: procesar_y_graficar_def resultado_def Let_def)
  qed
qed


lemmas run_defs = ejemplo_entorno_def ejemplo_rips_def ejemplo_store_def vacio_def
  fila_def fecha_iso_def digit_val_def ymd2ord_def days_before_year_def days_before_month_def
  days_in_month_def is_leap_def

lemmas frame_defs = empty_df_def resolver_col_u_def resolver_col_f_def filtrado_def
  tipo_df_def fecha_df_def parsed_df_def usuario_df_def es_filtro_activo_def assign_def
  dropna_def select_rows_def col_values_def coerce_datetime_def en_rango_def dt_date_def isin_def

lemma iso_0101: "fecha_iso col (Txt ''2024-01-01'') = Some (738886, 0)"
  by (simp add: run_defs)
lemma iso_0131: "fecha_iso col (Txt ''2024-01-31'') = Some (738916, 0)"
  by (simp add: run_defs)
lemma iso_0201: "fecha_iso col (Txt ''2024-02-01'') = Some (738917, 0)"
  by (simp add: run_defs)
lemma iso_sin: "fecha_iso col (Txt ''sin fecha'') = None"
  by (simp add: run_defs)


section \<open>The date filter\<close>

text \<open>
  C2. With an event-date column \<open>c\<close>, the date filter of lines 99-102 raises nothing
  and keeps, in their order, exactly the records whose value in \<open>c\<close> parses to a day
  \<open>d\<close> with \<open>start_date \<le> d \<le> end_date\<close>, both ends included; a record whose value
  does not parse is dropped. A record that is kept carries the parsed timestamp in \<open>c\<close>.
\<close>

theorem filtro_fecha_inclusive:
  "rows (objs (snd (filtro_fecha e (Some c) a s)) (fst (filtro_fecha e (Some c) a s))) =
     map (\<lambda>r. r(c := coerce_datetime e (col_values c (objs s a)) (r c)))
       (filter (\<lambda>r. case to_datetime e (col_values c (objs s a)) (r c) of
                      None \<Rightarrow> False
                    | Some (d, t) \<Rightarrow> start_date e \<le> d \<and> d \<le> end_date e)
          (rows (objs s a)))"
proof -
  let ?g = "\<lambda>r. coerce_datetime e (col_values c (objs s a)) (r c)"
  have keep: "(en_rango e (?g r) \<and> ?g r \<noteq> Null) =
      (case to_datetime e (col_values c (objs s a)) (r c) of
         None \<Rightarrow> False | Some (d, t) \<Rightarrow> start_date e \<le> d \<and> d \<le> end_date e)" for r
    by (simp add: coerce_datetime_def en_rango_def dt_date_def split: option.splits)
  have "rows (fecha_df e (Some c) (objs s a)) =
      filter (\<lambda>r. en_rango e (r c)) (filter (\<lambda>r. r c \<noteq> Null) (map (\<lambda>r. r(c := ?g r)) (rows (objs s a))))"
    by (simp add: fecha_df_def parsed_df_def assign_def dropna_def select_rows_def)
  also have "\<dots> = map (\<lambda>r. r(c := ?g r)) (filter (\<lambda>r. en_rango e (?g r) \<and> ?g r \<noteq> Null) (rows (objs s a)))"
    by (simp add: filter_map o_def conj_commute)
  finally show ?thesis using filtro_fecha_frame[of e "Some c" a s] by (simp add: keep)
qed

theorem filtro_fecha_inclusive_witness:
  "map (\<lambda>r. (r ''Usuario'', r ''Fecha''))
     (rows (objs (snd (filtro_fecha ejemplo_entorno (Some ''Fecha'') 0 ejemplo_store))
        (fst (filtro_fecha ejemplo_entorno (Some ''Fecha'') 0 ejemplo_store)))) =
   [(Txt ''Ana'', Stamp (start_date ejemplo_entorno) 0), (Txt ''Beto'', Stamp (end_date ejemplo_entorno) 0)]"
  using filtro_fecha_inclusive[of ejemplo_entorno "''Fecha''" 0 ejemplo_store]
  by (simp add: ejemplo_entorno_def ejemplo_rips_def ejemplo_store_def fila_def
      col_values_def coerce_datetime_def iso_0101 iso_0131 iso_0201 iso_sin ymd2ord_def days_before_year_def days_before_month_def
  days_in_month_def is_leap_def)

lemmas ord_defs = ymd2ord_def days_before_year_def days_before_month_def is_leap_def

lemma ejemplo_entorno_simps:
  "tipo_legalizacion ejemplo_entorno = [Txt ''PPL'', Txt ''Convenios'']"
  "sel_usuarios ejemplo_entorno = [Txt ''Todos'']"
  "start_date ejemplo_entorno = 738886"
  "end_date ejemplo_entorno = 738916"
  "to_datetime ejemplo_entorno = fecha_iso"
  "desempate ejemplo_entorno = (\<lambda>tabla p. 0)"
  by (simp_all add: ejemplo_entorno_def ord_defs)

lemmas ords = ejemplo_entorno_simps iso_0101 iso_0131 iso_0201 iso_sin

lemma filtrado_ejemplo:
  "map (\<lambda>r. r ''Usuario'') (rows (filtrado ejemplo_entorno False ejemplo_rips)) = [Txt ''Ana'', Txt ''Beto'']"
  by (simp add: frame_defs ejemplo_rips_def fila_def ords)

lemma modo_general_ok: "cu \<in> set (columns f) \<Longrightarrow> \<exists>n rk. modo_general e cu f = Inr (ModoGeneral n rk)"
  by (simp add: modo_general_def Let_def)

lemma comparativo_ok: "cu \<in> set (columns f) \<Longrightarrow> \<exists>n ev rs. comparativo e cu cf f = Inr (ModoComparativo n ev rs)"
  by (cases cf) (simp_all add: comparativo_def Let_def assign_def)

lemma columns_filtrado: "columns (filtrado e leg f) = columns f"
  using columns_filtered by (simp add: filtrado_def)

section \<open>One aggregation variant per call\<close>

lemma rows_filtrado_Nil: "rows f = [] \<Longrightarrow> rows (filtrado e leg f) = []"
  by (simp add: frame_defs split: option.splits)

lemma ejemplo_no_vacio: "\<not> empty_df (objs ejemplo_store 0)"
  by (simp add: ejemplo_store_def ejemplo_rips_def empty_df_def)

lemma ejemplo_col_u: "resolver_col_u (objs ejemplo_store 0) = ''Usuario''"
  by (simp add: ejemplo_store_def ejemplo_rips_def resolver_col_u_def)

lemma ejemplo_col_f: "resolver_col_f (objs ejemplo_store 0) = Some ''Fecha''"
  by (simp add: ejemplo_store_def ejemplo_rips_def resolver_col_f_def)

lemma sin_usuario_resultado:
  "resultado ejemplo_entorno False sin_usuario = Inl (KeyError ''Usuario'')"
  by (simp add: resultado_def Let_def modo_general_def frame_defs sin_usuario_def fila_def ords)

text \<open>
  C1, as the code has it. For every filter state the operator-filter flag of line 105 is
  true exactly when the selection is not empty and does not contain \<open>Todos\<close>. For every
  dataset that has the operator column chosen at line 91 and whose filtered record set is
  not empty, the call hands over the general (ranking) variant exactly when the flag is
  false, and the comparative (time-series) variant exactly when the flag is true.
\<close>

theorem una_variante_por_llamada:
  "(es_filtro_activo e \<longleftrightarrow> sel_usuarios e \<noteq> [] \<and> Txt ''Todos'' \<notin> set (sel_usuarios e))
   \<and> (resolver_col_u (objs s a) \<in> set (columns (objs s a))
        \<and> rows (filtrado e leg (objs s a)) \<noteq> []
      \<longrightarrow> ((\<exists>n rk. fst (procesar_y_graficar e (Some a) leg s) = Inr (ModoGeneral n rk))
              \<longleftrightarrow> \<not> es_filtro_activo e)
          \<and> ((\<exists>n ev rs. fst (procesar_y_graficar e (Some a) leg s) = Inr (ModoComparativo n ev rs))
              \<longleftrightarrow> es_filtro_activo e))"
proof (intro conjI impI)
  show "es_filtro_activo e \<longleftrightarrow> sel_usuarios e \<noteq> [] \<and> Txt ''Todos'' \<notin> set (sel_usuarios e)"
    by (auto simp add: es_filtro_activo_def)
next
  let ?f = "objs s a"
  assume h: "resolver_col_u ?f \<in> set (columns ?f) \<and> rows (filtrado e leg ?f) \<noteq> []"
  then have "rows ?f \<noteq> []" using rows_filtrado_Nil[of ?f e leg] by blast
  moreover have "columns ?f \<noteq> []" using h by auto
  ultimately have ne: "\<not> empty_df ?f" by (simp add: empty_df_def)
  have cu: "resolver_col_u ?f \<in> set (columns (filtrado e leg ?f))"
    using h by (simp add: columns_filtrado)
  have r: "fst (procesar_y_graficar e (Some a) leg s) =
      (if \<not> es_filtro_activo e then modo_general e (resolver_col_u ?f) (filtrado e leg ?f)
       else comparativo e (resolver_col_u ?f) (resolver_col_f ?f) (filtrado e leg ?f))"
    using procesar_vista[OF ne, of e leg] h by (simp add: resultado_def Let_def)
  have both: "((\<exists>n rk. fst (procesar_y_graficar e (Some a) leg s) = Inr (ModoGeneral n rk))
              \<longleftrightarrow> \<not> es_filtro_activo e)
          \<and> ((\<exists>n ev rs. fst (procesar_y_graficar e (Some a) leg s) = Inr (ModoComparativo n ev rs))
              \<longleftrightarrow> es_filtro_activo e)"
  proof (cases "es_filtro_activo e")
    case True
    then show ?thesis using r comparativo_ok[OF cu, of e "resolver_col_f ?f"] by auto
  next
    case False
    then show ?thesis using r modo_general_ok[OF cu, of e] by auto
  qed
  from both show "(\<exists>n rk. fst (procesar_y_graficar e (Some a) leg s) = Inr (ModoGeneral n rk))
              \<longleftrightarrow> \<not> es_filtro_activo e" by (rule conjunct1)
  from both show "(\<exists>n ev rs. fst (procesar_y_graficar e (Some a) leg s) = Inr (ModoComparativo n ev rs))
              \<longleftrightarrow> es_filtro_activo e" by (rule conjunct2)
qed

theorem una_variante_por_llamada_witness:
  "\<not> es_filtro_activo ejemplo_entorno
   \<and> (\<exists>n rk. fst (procesar_y_graficar ejemplo_entorno (Some 0) False ejemplo_store) = Inr (ModoGeneral n rk))
   \<and> (\<nexists>n ev rs. fst (procesar_y_graficar ejemplo_entorno (Some 0) False ejemplo_store) = Inr (ModoComparativo n ev rs))"
proof -
  have 2: "resolver_col_u (objs ejemplo_store 0) \<in> set (columns (objs ejemplo_store 0))"
    by (simp add: ejemplo_col_u) (simp add: ejemplo_store_def ejemplo_rips_def)
  have 3: "rows (filtrado ejemplo_entorno False (objs ejemplo_store 0)) \<noteq> []"
    using filtrado_ejemplo by (auto simp add: ejemplo_store_def)
  have 4: "\<not> es_filtro_activo ejemplo_entorno"
    by (simp add: es_filtro_activo_def ejemplo_entorno_simps)
  show ?thesis
    using una_variante_por_llamada[of ejemplo_entorno ejemplo_store 0 False] 2 3 4 by simp
qed

text \<open>
  C1 as stated fails: the sheet has one record in the January range and no operator
  column; the flag is false, the filtered record set has one record, and the call hands
  over no aggregation: line 120 raises \<open>KeyError\<close>.
\<close>

theorem sin_operador_sin_variante_counterexample:
  "\<not> es_filtro_activo ejemplo_entorno
   \<and> length (rows (filtrado ejemplo_entorno False (objs store_sin_usuario 1))) = 1
   \<and> fst (procesar_y_graficar ejemplo_entorno (Some 1) False store_sin_usuario)
       = Inl (KeyError ''Usuario'')"
proof -
  have ne: "\<not> empty_df (objs store_sin_usuario 1)"
    by (simp add: store_sin_usuario_def sin_usuario_def empty_df_def)
  have r: "fst (procesar_y_graficar ejemplo_entorno (Some 1) False store_sin_usuario)
      = Inl (KeyError ''Usuario'')"
    using procesar_vista[OF ne, of ejemplo_entorno False] sin_usuario_resultado
    by (simp add: store_sin_usuario_def)
  have f: "\<not> es_filtro_activo ejemplo_entorno"
    by (simp add: es_filtro_activo_def ejemplo_entorno_simps)
  have l: "length (rows (filtrado ejemplo_entorno False (objs store_sin_usuario 1))) = 1"
    by (simp add: store_sin_usuario_def frame_defs sin_usuario_def fila_def ords)
  show ?thesis using f l r by simp
qed

section \<open>No data loaded, and no data after the filters\<close>





lemma invertido_simps:
  "tipo_legalizacion invertido = [Txt ''PPL'', Txt ''Convenios'']"
  "sel_usuarios invertido = [Txt ''Todos'']"
  "start_date invertido = 738936"
  "end_date invertido = 738886"
  "to_datetime invertido = fecha_iso"
  "desempate invertido = (\<lambda>tabla p. 0)"
  by (simp_all add: invertido_def ejemplo_entorno_def ord_defs)

lemma rows_usuario_df_Nil: "rows f = [] \<Longrightarrow> rows (usuario_df e cu f) = []"
  by (simp add: usuario_df_def select_rows_def)

lemma en_rango_invertido: "end_date e < start_date e \<Longrightarrow> \<not> en_rango e v"
  by (simp add: en_rango_def dt_date_def split: cell.splits)



section \<open>A date range whose start is after its end\<close>

text \<open>
  C7, as the code has it. Nothing in \<open>procesar_y_graficar\<close> compares \<open>start_date\<close> with
  \<open>end_date\<close>: for a dataset that is not empty and has an event-date column, a range
  whose start is after its end is neither rejected nor put in order; the date filter
  keeps no record and the call hands over \<open>NoHayDatosConFiltros\<close>.
\<close>

theorem rango_invertido_sin_resultados:
  assumes "end_date e < start_date e"
    and "\<not> empty_df (objs s a)"
    and "resolver_col_f (objs s a) = Some c"
    and "es_filtro_activo e \<longrightarrow> resolver_col_u (objs s a) \<in> set (columns (objs s a))"
  shows "fst (procesar_y_graficar e (Some a) leg s) = Inr NoHayDatosConFiltros"
proof -
  have "rows (fecha_df e (Some c) (tipo_df e leg (objs s a))) = []"
    using en_rango_invertido[OF assms(1)] by (simp add: fecha_df_def select_rows_def)
  then have "rows (filtrado e leg (objs s a)) = []"
    using assms(3) by (simp add: filtrado_def rows_usuario_df_Nil)
  then show ?thesis
    using procesar_vista[OF assms(2), of e leg] assms(4) by (auto simp add: resultado_def Let_def)
qed

theorem rango_invertido_sin_resultados_witness:
  "end_date invertido < start_date invertido
   \<and> fst (procesar_y_graficar invertido (Some 0) False ejemplo_store) = Inr NoHayDatosConFiltros"
proof -
  have 1: "end_date invertido < start_date invertido" by (simp add: invertido_simps)
  have 4: "es_filtro_activo invertido \<longrightarrow>
      resolver_col_u (objs ejemplo_store 0) \<in> set (columns (objs ejemplo_store 0))"
    by (simp add: es_filtro_activo_def invertido_simps)
  show ?thesis
    using rango_invertido_sin_resultados[OF 1 ejemplo_no_vacio ejemplo_col_f 4, of False] 1 by simp
qed

text \<open>
  C7 as stated fails: with the range 20 February to 1 January, the sheet has three
  records dated between the two ends, and the call returns the empty-after-filter signal,
  not an error and not the result of the range put in order.
\<close>

theorem rango_invertido_counterexample:
  "start_date invertido > end_date invertido
   \<and> map (\<lambda>r. coerce_datetime invertido [] (r ''Fecha'')) (rows (objs ejemplo_store 0))
       = [Stamp 738886 0, Stamp 738916 0, Stamp 738917 0, Null]
   \<and> fst (procesar_y_graficar invertido (Some 0) False ejemplo_store) = Inr NoHayDatosConFiltros"
proof -
  have "rows (filtrado invertido False ejemplo_rips) = []"
    by (simp add: frame_defs ejemplo_rips_def fila_def invertido_simps iso_0101 iso_0131 iso_0201 iso_sin)
  then have "fst (procesar_y_graficar invertido (Some 0) False ejemplo_store) = Inr NoHayDatosConFiltros"
    using procesar_vista[OF ejemplo_no_vacio, of invertido False]
    by (simp add: resultado_def Let_def es_filtro_activo_def invertido_simps ejemplo_store_def)
  then show ?thesis
    by (simp add: invertido_simps coerce_datetime_def ejemplo_store_def ejemplo_rips_def fila_def
        iso_0101 iso_0131 iso_0201 iso_sin)
qed

section \<open>A dataset without an operator column\<close>

text \<open>
  C8. The RIPS sheet has no column \<open>USUARIO\<close> or \<open>Usuario\<close>: line 120 raises
  \<open>KeyError\<close>, which nothing catches; the script run ends there, and the Facturacion
  tab is not computed.
\<close>

theorem sin_columna_usuario_KeyError:
  "fst (tab_rips ejemplo_entorno ejemplo_sesion store_sin_usuario) = Inl (KeyError ''Usuario'')
   \<and> fst (tabs ejemplo_entorno ejemplo_sesion store_sin_usuario)
       = [Inr SincronizaLosDatos, Inl (KeyError ''Usuario'')]"
proof -
  have ne: "\<not> empty_df (objs store_sin_usuario 1)"
    by (simp add: store_sin_usuario_def sin_usuario_def empty_df_def)
  have r: "fst (procesar_y_graficar ejemplo_entorno (Some 1) False store_sin_usuario)
      = Inl (KeyError ''Usuario'')"
    using procesar_vista[OF ne, of ejemplo_entorno False] sin_usuario_resultado
    by (simp add: store_sin_usuario_def)
  have l: "tab_leg ejemplo_entorno ejemplo_sesion store_sin_usuario
      = (Inr SincronizaLosDatos, store_sin_usuario)"
    by (simp add: tab_leg_def legalizaciones_def etiquetar_def ejemplo_sesion_def)
  obtain s2 where p: "procesar_y_graficar ejemplo_entorno (Some 1) False store_sin_usuario
      = (Inl (KeyError ''Usuario''), s2)"
    using r by (cases "procesar_y_graficar ejemplo_entorno (Some 1) False store_sin_usuario") simp
  show ?thesis using l p by (simp add: tabs_def tab_rips_def ejemplo_sesion_def)
qed

section \<open>The stored dataset after a view\<close>

text \<open>
  Line 100 assigns into the object the caller passed whenever line 96 has not rebound
  \<open>df\<close>; the RIPS and Facturacion tabs pass the stored dataset itself.
\<close>

lemma procesar_store_arg:
  assumes "\<not> empty_df (objs s a)" and "resolver_col_f (objs s a) = Some c" and "a < fresh s"
  shows "objs (snd (procesar_y_graficar e (Some a) False s)) a = parsed_df e c (objs s a)"
  using assms
  by (simp add: procesar_y_graficar_def filtro_tipo_def filtro_fecha_def filtro_usuario_def
      modo_comparativo_def new_obj_def put_obj_def parsed_df_def Let_def
      split: prod.splits sum.splits option.splits)

text \<open>
  C9. After the RIPS tab has run, the event-date column of the stored RIPS dataset holds
  the parsed timestamps, and a missing value where the text was not a date.
\<close>

theorem tab_rips_muta_df_rips:
  "map (\<lambda>r. r ''Fecha'') (rows (objs ejemplo_store 0))
     = [Txt ''2024-01-01'', Txt ''2024-01-31'', Txt ''2024-02-01'', Txt ''sin fecha'']
   \<and> map (\<lambda>r. r ''Fecha'') (rows (objs (snd (tab_rips ejemplo_entorno sesion_rips ejemplo_store)) 0))
     = [Stamp 738886 0, Stamp 738916 0, Stamp 738917 0, Null]"
proof -
  have fr: "0 < fresh ejemplo_store" by (simp add: ejemplo_store_def)
  have "objs (snd (tab_rips ejemplo_entorno sesion_rips ejemplo_store)) 0
      = parsed_df ejemplo_entorno ''Fecha'' (objs ejemplo_store 0)"
    using procesar_store_arg[OF ejemplo_no_vacio ejemplo_col_f fr, of ejemplo_entorno]
    by (simp add: tab_rips_def sesion_rips_def)
  then show ?thesis
    by (simp add: parsed_df_def assign_def coerce_datetime_def col_values_def ejemplo_store_def
        ejemplo_rips_def fila_def ords)
qed

section \<open>Counting\<close>

lemma set_unique [simp]: "set (unique xs) = set xs"
  by (simp add: unique_def)

lemma distinct_unique [simp]: "distinct (unique xs)"
  by (simp add: unique_def)

lemma sum_list_insort_key:
  "sum_list (map g (insort_key f x xs)) = g x + sum_list (map g xs)"
  for g :: "'a \<Rightarrow> 'b::comm_monoid_add"
  by (induction xs) (simp_all add: add.left_commute)

lemma sum_list_sort_key:
  "sum_list (map g (sort_key f xs)) = sum_list (map g xs)"
  for g :: "'a \<Rightarrow> 'b::comm_monoid_add"
  by (induction xs) (simp_all add: sum_list_insort_key)

lemma sum_counts_unique: "sum_list (map (count_list xs) (unique xs)) = length xs"
proof -
  have "sum_list (map (count_list xs) (unique xs)) = sum (count_list xs) (set (unique xs))"
    by (rule sum_list_distinct_conv_sum_set) simp
  also have "\<dots> = length xs"
    by (simp add: sum_count_set)
  finally show ?thesis .
qed

lemma value_counts_sum:
  "sum_list (map snd (value_counts rank vs)) = length (filter (\<lambda>v. v \<noteq> Null) vs)"
  by (simp add: value_counts_def Let_def sum_list_sort_key o_def sum_counts_unique)

lemma round_half_even_near: "\<bar>of_int (round_half_even x) - x\<bar> \<le> 1 / 2"
proof -
  have "of_int \<lfloor>x\<rfloor> \<le> x" and "x < of_int \<lfloor>x\<rfloor> + 1" by linarith+
  then show ?thesis
    by (auto simp add: round_half_even_def Let_def abs_le_iff)
qed

lemma count_list_filter_keep: "P u \<Longrightarrow> count_list (filter P xs) u = count_list xs u"
  by (induction xs) auto

lemma procesar_ModoGeneral:
  assumes "fst (procesar_y_graficar e (Some a) leg s) = Inr (ModoGeneral n rk)"
  shows "n = length (rows (filtrado e leg (objs s a)))
    \<and> rk = tabla_porcentual
        (value_counts (desempate e)
           (col_values (resolver_col_u (objs s a)) (filtrado e leg (objs s a))))
    \<and> \<not> es_filtro_activo e \<and> rows (filtrado e leg (objs s a)) \<noteq> []"
proof (cases "empty_df (objs s a)")
  case True
  then show ?thesis using assms by (simp add: procesar_y_graficar_def)
next
  case False
  show ?thesis
    using assms procesar_vista[OF False, of e leg]
    by (auto simp add: resultado_def Let_def modo_general_def comparativo_def
        split: if_splits option.splits)
qed

lemma store_ranking_0: "objs store_ranking 0 = con_faltante" "objs store_ranking 1 = empate"
  by (simp_all add: store_ranking_def)

lemma store_ranking_1: "objs store_ranking (Suc 0) = empate"
  by (simp add: store_ranking_def)

section \<open>Rounding to floats: the error of one operation and of line 131\<close>

lemma exponente_bounds:
  assumes "x \<noteq> 0"
  shows "(2::rat) powi (exponente x) \<le> \<bar>x\<bar>" and "\<bar>x\<bar> < (2::rat) powi (exponente x + 1)"
proof -
  obtain p q where pq: "quotient_of \<bar>x\<bar> = (p, q)" by (cases "quotient_of \<bar>x\<bar>")
  have q: "0 < q" using pq by (rule quotient_of_denom_pos)
  have x: "\<bar>x\<bar> = of_int p / of_int q" using pq by (rule quotient_of_div)
  have "0 < \<bar>x\<bar>" using assms by simp
  then have p: "0 < p" using x q by (simp add: zero_less_divide_iff)
  let ?bp = "bitlen p" and ?bq = "bitlen q"
  from bitlen_bounds[OF p] have p1: "2 ^ nat (?bp - 1) \<le> p" and p2: "p < 2 ^ nat ?bp" by simp_all
  from bitlen_bounds[OF q] have q1: "2 ^ nat (?bq - 1) \<le> q" and q2: "q < 2 ^ nat ?bq" by simp_all
  have bp: "1 \<le> ?bp" using p bitlen_eq_zero_iff[of p] bitlen_nonneg[of p] by linarith
  have bq: "1 \<le> ?bq" using q bitlen_eq_zero_iff[of q] bitlen_nonneg[of q] by linarith
  have P1: "(2::rat) powi (?bp - 1) \<le> of_int p"
  proof -
    have "(of_int (2 ^ nat (?bp - 1)) :: rat) \<le> of_int p" using p1 by (simp only: of_int_le_iff)
    then show ?thesis using bp by (simp add: power_int_def)
  qed
  have P2: "of_int p < (2::rat) powi ?bp"
  proof -
    have "(of_int p :: rat) < of_int (2 ^ nat ?bp)" using p2 by (simp only: of_int_less_iff)
    then show ?thesis using bp by (simp add: power_int_def)
  qed
  have Q1: "(2::rat) powi (?bq - 1) \<le> of_int q"
  proof -
    have "(of_int (2 ^ nat (?bq - 1)) :: rat) \<le> of_int q" using q1 by (simp only: of_int_le_iff)
    then show ?thesis using bq by (simp add: power_int_def)
  qed
  have Q2: "of_int q < (2::rat) powi ?bq"
  proof -
    have "(of_int q :: rat) < of_int (2 ^ nat ?bq)" using q2 by (simp only: of_int_less_iff)
    then show ?thesis using bq by (simp add: power_int_def)
  qed
  have qpos: "(0::rat) < of_int q" using q by simp
  let ?d = "?bp - ?bq"
  have low: "(2::rat) powi (?d - 1) \<le> \<bar>x\<bar>"
  proof -
    have "(2::rat) powi (?d - 1) = 2 powi (?bp - 1) / 2 powi ?bq"
      using power_int_diff[of "2::rat" "?bp - 1" ?bq] by (simp add: algebra_simps)
    also have "\<dots> \<le> of_int p / 2 powi ?bq"
      using P1 by (simp add: divide_right_mono)
    also have "\<dots> \<le> of_int p / of_int q"
      using Q2 qpos p by (simp add: divide_left_mono)
    finally show ?thesis using x by simp
  qed
  have high: "\<bar>x\<bar> < (2::rat) powi (?d + 1)"
  proof -
    have "\<bar>x\<bar> = of_int p / of_int q" by (rule x)
    also have "\<dots> < 2 powi ?bp / of_int q"
      using P2 qpos by (simp add: divide_strict_right_mono)
    also have "\<dots> \<le> 2 powi ?bp / 2 powi (?bq - 1)"
      using Q1 by (intro frac_le) simp_all
    also have "\<dots> = (2::rat) powi (?d + 1)"
      using power_int_diff[of "2::rat" ?bp "?bq - 1"] by (simp add: algebra_simps)
    finally show ?thesis .
  qed
  have e: "exponente x = (if (2::rat) powi ?d \<le> \<bar>x\<bar> then ?d else ?d - 1)"
    by (simp add: exponente_def pq Let_def)
  show "(2::rat) powi (exponente x) \<le> \<bar>x\<bar>" using e low by auto
  show "\<bar>x\<bar> < (2::rat) powi (exponente x + 1)" using e high by (auto simp add: not_le)
qed

lemma fl_error: "\<bar>fl x - x\<bar> \<le> \<bar>x\<bar> / 2 ^ 53"
proof (cases "x = 0")
  case True
  then show ?thesis by (simp add: fl_def)
next
  case False
  let ?e = "exponente x"
  let ?u = "(2::rat) powi (?e - 52)"
  have u: "0 < ?u" by simp
  have "\<bar>of_int (round_half_even (x / ?u)) - x / ?u\<bar> \<le> 1 / 2" by (rule round_half_even_near)
  then have "\<bar>of_int (round_half_even (x / ?u)) - x / ?u\<bar> * ?u \<le> 1 / 2 * ?u"
    using u by (simp only: mult_right_mono less_imp_le)
  moreover have "\<bar>of_int (round_half_even (x / ?u)) - x / ?u\<bar> * ?u
      = \<bar>of_int (round_half_even (x / ?u)) * ?u - x\<bar>"
  proof -
    have "\<bar>of_int (round_half_even (x / ?u)) - x / ?u\<bar> * ?u
        = \<bar>(of_int (round_half_even (x / ?u)) - x / ?u) * ?u\<bar>"
      using u by (simp add: abs_mult)
    also have "(of_int (round_half_even (x / ?u)) - x / ?u) * ?u
        = of_int (round_half_even (x / ?u)) * ?u - x"
      using u by (simp add: algebra_simps)
    finally show ?thesis .
  qed
  ultimately have 1: "\<bar>fl x - x\<bar> \<le> ?u / 2" using False by (simp add: fl_def Let_def)
  have "?u = 2 powi ?e / 2 powi 52" using power_int_diff[of "2::rat" ?e 52] by simp
  then have "?u / 2 = 2 powi ?e / 2 ^ 53" by simp
  also have "\<dots> \<le> \<bar>x\<bar> / 2 ^ 53"
    using exponente_bounds(1)[OF False] by (simp add: divide_right_mono)
  finally show ?thesis using 1 by linarith
qed

lemma fl_near: "\<bar>x\<bar> \<le> B \<Longrightarrow> \<bar>fl x - x\<bar> \<le> B / 2 ^ 53"
proof -
  assume "\<bar>x\<bar> \<le> B"
  then have "\<bar>x\<bar> / 2 ^ 53 \<le> B / 2 ^ 53" by (simp add: divide_right_mono)
  with fl_error[of x] show ?thesis by linarith
qed

lemma ratio_error:
  fixes a b a' b' d :: rat
  assumes "0 \<le> a" and "a \<le> b" and "0 < b"
    and "\<bar>a' - a\<bar> \<le> d * a" and "\<bar>b' - b\<bar> \<le> d * b" and "0 \<le> d" and "d \<le> 1 / 3"
  shows "\<bar>a' / b' - a / b\<bar> \<le> 3 * d"
proof -
  have db: "d * b \<le> b / 3" using assms(3,7) by (simp add: mult_right_mono)
  have b': "2 / 3 * b \<le> b'" using assms(5) db by linarith
  then have b'pos: "0 < b'" using assms(3) by linarith
  have "a' * b - a * b' = (a' - a) * b - a * (b' - b)" by (simp add: algebra_simps)
  then have "\<bar>a' * b - a * b'\<bar> \<le> \<bar>(a' - a) * b\<bar> + \<bar>a * (b' - b)\<bar>" by linarith
  also have "\<bar>(a' - a) * b\<bar> = \<bar>a' - a\<bar> * b" using assms(3) by (simp add: abs_mult)
  also have "\<bar>a * (b' - b)\<bar> = a * \<bar>b' - b\<bar>" using assms(1) by (simp add: abs_mult)
  finally have n0: "\<bar>a' * b - a * b'\<bar> \<le> \<bar>a' - a\<bar> * b + a * \<bar>b' - b\<bar>" .
  have "\<bar>a' - a\<bar> * b \<le> (d * a) * b" using assms(3,4) by (simp add: mult_right_mono)
  moreover have "a * \<bar>b' - b\<bar> \<le> a * (d * b)" using assms(1,5) by (simp add: mult_left_mono)
  ultimately have n1: "\<bar>a' * b - a * b'\<bar> \<le> 2 * d * (a * b)" using n0 by (simp add: algebra_simps)
  have "a * b \<le> b * b" using assms(2,3) by (simp add: mult_right_mono)
  also have "b * b \<le> b * (3 / 2 * b')" using b' assms(3) by (simp add: mult_left_mono)
  finally have h: "a * b \<le> 3 / 2 * (b * b')" by (simp add: algebra_simps)
  have "2 * d * (a * b) \<le> 2 * d * (3 / 2 * (b * b'))"
    using h assms(6) by (intro mult_left_mono) simp_all
  then have n2: "\<bar>a' * b - a * b'\<bar> \<le> 3 * d * (b * b')" using n1 by (simp add: algebra_simps)
  have bb: "0 < b * b'" using assms(3) b'pos by simp
  have "a' / b' - a / b = (a' * b - a * b') / (b * b')"
    using assms(3) b'pos by (simp add: field_simps)
  then have "\<bar>a' / b' - a / b\<bar> = \<bar>a' * b - a * b'\<bar> / (b * b')"
    using bb by (simp add: abs_divide)
  also have "\<dots> \<le> 3 * d"
    using n2 bb by (simp only: pos_divide_le_eq)
  finally show ?thesis .
qed

lemma porcentaje_error:
  assumes "c \<le> t" and "0 < t"
  shows "\<bar>porcentaje c t - 100 * of_nat c / of_nat t\<bar> \<le> 1 / 200 + 1 / 10 ^ 12"
proof -
  define d :: rat where "d = 1 / 2 ^ 53"
  have d: "0 < d" "d \<le> 1 / 1000" "902 * d \<le> 1 / 1000000000000" by (simp_all add: d_def)
  have near: "\<bar>x\<bar> \<le> B \<Longrightarrow> \<bar>fl x - x\<bar> \<le> B * d" for x B
    using fl_near[of x B] by (simp add: d_def)
  define a b :: rat where "a = of_nat c" and "b = of_nat t"
  have ab: "0 \<le> a" "a \<le> b" "0 < b" using assms by (simp_all add: a_def b_def)
  define s where "s = a / b"
  have s: "0 \<le> s" "s \<le> 1" using ab by (simp_all add: s_def)
  have ea: "\<bar>fl a - a\<bar> \<le> d * a" using near[of a a] ab by (simp add: mult.commute)
  have eb: "\<bar>fl b - b\<bar> \<le> d * b" using near[of b b] ab by (simp add: mult.commute)
  define q where "q = fl a / fl b"
  have q: "\<bar>q - s\<bar> \<le> 3 * d"
    unfolding q_def s_def using ratio_error[OF ab ea eb] d by simp
  define x1 where "x1 = fl q"
  have "\<bar>q\<bar> \<le> 2" using q s d by linarith
  from near[OF this] have "\<bar>x1 - q\<bar> \<le> 2 * d" by (simp add: x1_def)
  then have x1: "\<bar>x1 - s\<bar> \<le> 5 * d" using q by linarith
  define x2 where "x2 = fl (x1 * 100)"
  have "\<bar>x1 * 100\<bar> \<le> 200" using x1 s d by linarith
  from near[OF this] have "\<bar>x2 - x1 * 100\<bar> \<le> 200 * d" by (simp add: x2_def)
  then have x2: "\<bar>x2 - 100 * s\<bar> \<le> 700 * d" using x1 by linarith
  define x3 where "x3 = fl (x2 * 100)"
  have "\<bar>x2 * 100\<bar> \<le> 10100" using x2 s d by linarith
  from near[OF this] have "\<bar>x3 - x2 * 100\<bar> \<le> 10100 * d" by (simp add: x3_def)
  then have x3: "\<bar>x3 - 10000 * s\<bar> \<le> 80100 * d" using x2 by linarith
  define z :: rat where "z = of_int (round_half_even x3) / 100"
  have "\<bar>of_int (round_half_even x3) - x3\<bar> \<le> 1 / 2" by (rule round_half_even_near)
  then have "\<bar>z * 100 - x3\<bar> \<le> 1 / 2" by (simp add: z_def)
  then have z: "\<bar>z - 100 * s\<bar> \<le> 1 / 200 + 801 * d" using x3 by linarith
  then have "\<bar>z\<bar> \<le> 101" using s d by linarith
  from near[OF this] have "\<bar>fl z - z\<bar> \<le> 101 * d" by simp
  then have y: "\<bar>fl z - 100 * s\<bar> \<le> 1 / 200 + 902 * d" using z by linarith
  have "porcentaje c t = fl z"
    by (simp add: porcentaje_def round2_def z_def x3_def x2_def x1_def q_def a_def b_def)
  moreover have "100 * of_nat c / of_nat t = 100 * s" by (simp add: s_def a_def b_def)
  moreover have "(1::rat) / 10 ^ 12 = 1 / 1000000000000" by simp
  ultimately show ?thesis using y d(3) by linarith
qed

lemma exponente_unique:
  assumes "(2::rat) powi e \<le> \<bar>x\<bar>" and "\<bar>x\<bar> < (2::rat) powi (e + 1)"
  shows "exponente x = e"
proof -
  have pos: "(0::rat) < 2 powi e" by simp
  have nz: "x \<noteq> 0"
  proof
    assume "x = 0"
    with assms(1) have "(2::rat) powi e \<le> 0" by simp
    with pos show False by linarith
  qed
  note b = exponente_bounds[OF nz]
  have "(2::rat) powi exponente x < 2 powi (e + 1)" using b(1) assms(2) by linarith
  then have 1: "exponente x < e + 1"
    using power_int_increasing[of "e + 1" "exponente x" "2::rat"] by (cases "exponente x < e + 1") auto
  have "(2::rat) powi e < 2 powi (exponente x + 1)" using b(2) assms(1) by linarith
  then have 2: "e < exponente x + 1"
    using power_int_increasing[of "exponente x + 1" e "2::rat"] by (cases "e < exponente x + 1") auto
  show ?thesis using 1 2 by linarith
qed

lemma round_half_even_of_int [simp]: "round_half_even (of_int m) = m"
  by (simp add: round_half_even_def)

lemma fl_eq:
  assumes "(2::rat) powi e \<le> \<bar>x\<bar>" and "\<bar>x\<bar> < (2::rat) powi (e + 1)"
  shows "fl x = of_int (round_half_even (x / 2 powi (e - 52))) * 2 powi (e - 52)"
proof -
  have pos: "(0::rat) < 2 powi e" by simp
  have nz: "x \<noteq> 0"
  proof
    assume "x = 0"
    with assms(1) have "(2::rat) powi e \<le> 0" by simp
    with pos show False by linarith
  qed
  show ?thesis using nz exponente_unique[OF assms] by (simp add: fl_def Let_def)
qed

lemma fl_exact:
  assumes "\<bar>m\<bar> < 2 ^ 53"
  shows "fl (of_int m * 2 powi k) = of_int m * 2 powi k"
proof (cases "m = 0")
  case True
  then show ?thesis by (simp add: fl_def)
next
  case False
  let ?x = "of_int m * (2::rat) powi k"
  have nz: "?x \<noteq> 0" using False by simp
  let ?e = "exponente ?x"
  have ax: "\<bar>?x\<bar> = of_int \<bar>m\<bar> * 2 powi k" by (simp add: abs_mult)
  have "(of_int \<bar>m\<bar> :: rat) < of_int (2 ^ 53)" using assms by (simp only: of_int_less_iff)
  then have "of_int \<bar>m\<bar> * (2::rat) powi k < 2 ^ 53 * 2 powi k"
    by (simp add: mult_strict_right_mono)
  also have "\<dots> = (2::rat) powi (53 + k)"
    using power_int_add[of "2::rat" 53 k] by simp
  finally have "(2::rat) powi ?e < 2 powi (53 + k)"
    using exponente_bounds(1)[OF nz] ax by linarith
  then have lt: "?e < 53 + k"
    using power_int_increasing[of "53 + k" ?e "2::rat"] by (cases "?e < 53 + k") auto
  define j where "j = nat (k - ?e + 52)"
  have j: "int j = k - ?e + 52" using lt by (simp add: j_def)
  have "(2::rat) powi k / 2 powi (?e - 52) = 2 powi (k - (?e - 52))"
    using power_int_diff[of "2::rat" k "?e - 52"] by simp
  also have "k - (?e - 52) = int j" using j by simp
  finally have q: "(2::rat) powi k / 2 powi (?e - 52) = 2 ^ j" by simp
  have "?x / 2 powi (?e - 52) = of_int m * ((2::rat) powi k / 2 powi (?e - 52))" by simp
  also have "\<dots> = of_int (m * 2 ^ j)" using q by simp
  finally have r: "round_half_even (?x / 2 powi (?e - 52)) = m * 2 ^ j"
    by (simp only: round_half_even_of_int)
  have "fl ?x = of_int (m * 2 ^ j) * 2 powi (?e - 52)"
    using nz r by (simp add: fl_def Let_def)
  also have "\<dots> = of_int m * ((2::rat) ^ j * 2 powi (?e - 52))" by simp
  also have "(2::rat) ^ j * 2 powi (?e - 52) = 2 powi k"
    using q by (simp add: field_simps)
  finally show ?thesis .
qed

lemma fl_int: "\<bar>m\<bar> < 2 ^ 53 \<Longrightarrow> fl (of_int m) = of_int m"
  using fl_exact[of m 0] by simp

lemma fl_one [simp]: "fl 1 = 1"
  using fl_int[of 1] by simp

lemma fl_numeral: "(numeral w :: int) < 2 ^ 53 \<Longrightarrow> fl (numeral w) = numeral w"
  using fl_int[of "numeral w"] by simp

lemma fl_half [simp]: "fl (1 / 2) = 1 / 2"
  using fl_exact[of 1 "-1"] by (simp add: power_int_minus)

lemma round_half_even_numeral [simp]: "round_half_even (numeral w) = numeral w"
  using round_half_even_of_int[of "numeral w"] by simp

lemma porcentaje_1_1: "porcentaje 1 1 = 100"
  by (simp add: porcentaje_def round2_def fl_numeral)

lemma porcentaje_1_2: "porcentaje 1 2 = 50"
  by (simp add: porcentaje_def round2_def fl_numeral)

lemma round_half_even_eq:
  assumes "\<bar>x - of_int k\<bar> < 1 / 2"
  shows "round_half_even x = k"
proof -
  have f: "of_int \<lfloor>x\<rfloor> \<le> x" "x < of_int \<lfloor>x\<rfloor> + 1" by linarith+
  consider "x - of_int \<lfloor>x\<rfloor> < 1 / 2" | "1 / 2 < x - of_int \<lfloor>x\<rfloor>" | "x - of_int \<lfloor>x\<rfloor> = 1 / 2"
    by linarith
  then show ?thesis
  proof cases
    case 1
    then have "\<bar>(of_int \<lfloor>x\<rfloor> :: rat) - of_int k\<bar> < 1" using assms f by linarith
    then have "\<bar>\<lfloor>x\<rfloor> - k\<bar> < 1" by (metis of_int_diff of_int_abs of_int_less_1_iff)
    then show ?thesis using 1 by (simp add: round_half_even_def Let_def)
  next
    case 2
    have "\<bar>(of_int \<lfloor>x\<rfloor> + 1 :: rat) - of_int k\<bar> \<le> \<bar>of_int \<lfloor>x\<rfloor> + 1 - x\<bar> + \<bar>x - of_int k\<bar>"
      by linarith
    moreover have "\<bar>(of_int \<lfloor>x\<rfloor> + 1 :: rat) - x\<bar> < 1 / 2" using 2 f by linarith
    ultimately have "\<bar>(of_int \<lfloor>x\<rfloor> + 1 :: rat) - of_int k\<bar> < 1" using assms by linarith
    then have "\<bar>(of_int (\<lfloor>x\<rfloor> + 1) :: rat) - of_int k\<bar> < 1" by simp
    then have "\<bar>\<lfloor>x\<rfloor> + 1 - k\<bar> < 1" by (metis of_int_diff of_int_abs of_int_less_1_iff)
    then show ?thesis using 2 by (simp add: round_half_even_def Let_def)
  next
    case 3
    then have "x = of_int \<lfloor>x\<rfloor> + 1 / 2" by linarith
    then have "\<bar>(of_int \<lfloor>x\<rfloor> :: rat) + 1 / 2 - of_int k\<bar> < 1 / 2" using assms by simp
    then have "(0::rat) < of_int k - of_int \<lfloor>x\<rfloor>" "(of_int k :: rat) - of_int \<lfloor>x\<rfloor> < 1"
      by linarith+
    then have "(0::rat) < of_int (k - \<lfloor>x\<rfloor>)" "(of_int (k - \<lfloor>x\<rfloor>) :: rat) < 1" by simp_all
    then have "0 < k - \<lfloor>x\<rfloor>" "k - \<lfloor>x\<rfloor> < 1" by (simp_all only: of_int_0_less_iff of_int_less_1_iff)
    then show ?thesis by linarith
  qed
qed

text \<open>
  The value line 131 gives for 23 records of 160: the quotient, the product by 100 and
  the rounding each round to a float, and the result is the float nearest to 14.37,
  although 100 times 23 / 160 is 14.375.
\<close>

lemma fl_step:
  assumes "(2::rat) powi e \<le> \<bar>x\<bar>" and "\<bar>x\<bar> < (2::rat) powi (e + 1)"
    and "\<bar>x / 2 powi (e - 52) - of_int k\<bar> < 1 / 2"
  shows "fl x = of_int k * 2 powi (e - 52)"
  using fl_eq[OF assms(1,2)] round_half_even_eq[OF assms(3)] by simp

lemma fl_23_160: "fl (23 / 160) = 5179139571476070 / 2 ^ 55"
  using fl_step[of "-3" "23 / 160" 5179139571476070] by (simp add: power_int_minus)

lemma fl_23_160_100: "fl (5179139571476070 / 2 ^ 55 * 100) = 8092405580431359 / 2 ^ 49"
  using fl_step[of 3 "5179139571476070 / 2 ^ 55 * 100" 8092405580431359]
  by (simp add: power_int_minus)

lemma fl_23_160_10000: "fl (8092405580431359 / 2 ^ 49 * 100) = 6322191859711999 / 2 ^ 42"
  using fl_step[of 10 "8092405580431359 / 2 ^ 49 * 100" 6322191859711999]
  by (simp add: power_int_minus)

lemma rint_23_160: "round_half_even (6322191859711999 / 2 ^ 42) = 1437"
  by (rule round_half_even_eq) simp

lemma fl_1437: "fl (1437 / 100) = 8089590830664253 / 2 ^ 49"
  using fl_step[of 3 "1437 / 100" 8089590830664253] by (simp add: power_int_minus)

lemma porcentaje_23_160: "porcentaje 23 160 = 8089590830664253 / 2 ^ 49"
proof -
  have n: "fl 23 = 23" "fl 160 = 160" by (simp_all add: fl_numeral)
  have "fl (fl (fl 23 / fl 160) * 100) = 8092405580431359 / 2 ^ 49"
    by (simp only: n fl_23_160 fl_23_160_100)
  then show ?thesis
    unfolding porcentaje_def round2_def
    by (simp only: fl_23_160_10000 rint_23_160 of_nat_numeral) (simp add: fl_1437)
qed


section \<open>Merging the legalization datasets\<close>



section \<open>The comparative mode: summary and daily counts\<close>

lemma procesar_ModoComparativo:
  assumes "fst (procesar_y_graficar e (Some a) leg s) = Inr (ModoComparativo n ev rs)"
  shows "comparativo e (resolver_col_u (objs s a)) (resolver_col_f (objs s a))
      (filtrado e leg (objs s a)) = Inr (ModoComparativo n ev rs)"
proof (cases "empty_df (objs s a)")
  case True
  then show ?thesis using assms by (simp add: procesar_y_graficar_def)
next
  case False
  show ?thesis
    using assms procesar_vista[OF False, of e leg]
    by (auto simp add: resultado_def Let_def modo_general_def split: if_splits)
qed

lemma filtrado_en_rango:
  "resolver_col_f f = Some c \<Longrightarrow> r \<in> set (rows (filtrado e leg f)) \<Longrightarrow> en_rango e (r c)"
  by (auto simp add: filtrado_def usuario_df_def fecha_df_def select_rows_def split: if_splits)

lemma en_rango_dt_date: "en_rango e v \<Longrightarrow> dt_date v \<noteq> Null"
  by (cases "dt_date v") (simp_all add: en_rango_def)

lemma resolver_col_u_neq: "resolver_col_u f \<noteq> ''Dia_Evolucion''"
  by (simp add: resolver_col_u_def)

lemma unique_filter: "unique (filter P xs) = filter P (unique xs)"
  by (simp add: unique_def rev_filter remdups_filter)

lemma sum_counts_filter_unique:
  "sum_list (map (count_list ks) (filter P (unique ks))) = length (filter P ks)"
proof -
  have h: "map (count_list ks) (unique (filter P ks))
      = map (count_list (filter P ks)) (unique (filter P ks))"
    by (rule map_cong) (auto simp add: count_list_filter_keep)
  have "sum_list (map (count_list ks) (filter P (unique ks)))
      = sum_list (map (count_list ks) (unique (filter P ks)))"
    by (simp only: unique_filter)
  also have "\<dots> = sum_list (map (count_list (filter P ks)) (unique (filter P ks)))"
    by (simp only: h)
  also have "\<dots> = length (filter P ks)"
    by (rule sum_counts_unique)
  finally show ?thesis .
qed

lemma groupby_size_sum:
  "sum_list (map snd (filter (\<lambda>g. snd (fst g) = u) (groupby_size c1 c2 df)))
     = length (filter (\<lambda>k. snd k = u)
         (filter (\<lambda>k. fst k \<noteq> Null \<and> snd k \<noteq> Null) (map (\<lambda>r. (r c1, r c2)) (rows df))))"
  by (simp add: groupby_size_def Let_def filter_map o_def filter_sort sum_list_sort_key
      sum_counts_filter_unique)

lemma value_counts_sum_of:
  "sum_list (map snd (filter (\<lambda>p. fst p = u) (value_counts rank vs)))
     = length (filter (\<lambda>v. v = u) (filter (\<lambda>v. v \<noteq> Null) vs))"
  by (simp add: value_counts_def Let_def filter_sort sum_list_sort_key filter_map o_def
      sum_counts_filter_unique)

lemma value_counts_distinct: "distinct (map fst (value_counts rank vs))"
proof -
  let ?xs = "filter (\<lambda>v. v \<noteq> Null) vs"
  let ?l = "map (\<lambda>u. (u, count_list ?xs u)) (unique ?xs)"
  have "distinct ?l" by (simp add: distinct_map inj_on_def)
  moreover have "inj_on fst (set ?l)" by (auto simp add: inj_on_def)
  ultimately show ?thesis by (simp add: value_counts_def Let_def distinct_map)
qed

lemma keys_snd:
  "\<forall>r \<in> set rs. g r \<noteq> Null \<Longrightarrow>
     map snd (filter (\<lambda>k. fst k \<noteq> Null \<and> snd k \<noteq> Null) (map (\<lambda>r. (g r, h r)) rs))
       = filter (\<lambda>v. v \<noteq> Null) (map h rs)"
  by (induction rs) auto

lemma length_filter_snd:
  "length (filter (\<lambda>k. snd k = u) ks) = length (filter (\<lambda>v. v = u) (map snd ks))"
  by (induction ks) auto

lemma length_filter_count:
  "length (filter (\<lambda>v. v = u) (filter (\<lambda>v. v \<noteq> Null) vs))
     = (if u = Null then 0 else count_list vs u)"
  by (induction vs) auto

text \<open>
  C10. In the comparative mode on a dataset with an event-date column, the summary has
  one row per operator, and for every operator the total of its summary row equals the
  sum of its per-day counts in the day-by-operator table (both are zero for an operator
  with no filtered record): it is the number of filtered records of that operator.
\<close>

theorem resumen_es_suma_diaria:
  assumes "fst (procesar_y_graficar e (Some a) leg s) = Inr (ModoComparativo n (Some evol) resumen)"
  shows "distinct (map fst resumen)
    \<and> (\<forall>u. sum_list (map snd (filter (\<lambda>p. fst p = u) resumen))
            = sum_list (map snd (filter (\<lambda>g. snd (fst g) = u) evol))
          \<and> sum_list (map snd (filter (\<lambda>p. fst p = u) resumen))
            = (if u = Null then 0
               else count_list (col_values (resolver_col_u (objs s a))
                      (filtrado e leg (objs s a))) u))"
proof -
  let ?f = "objs s a"
  let ?cu = "resolver_col_u ?f"
  let ?F = "filtrado e leg ?f"
  let ?ops = "col_values ?cu ?F"
  note cmp = procesar_ModoComparativo[OF assms]
  then obtain c where c: "resolver_col_f ?f = Some c"
    by (cases "resolver_col_f ?f") (auto simp add: comparativo_def Let_def split: if_splits)
  let ?F1 = "assign ''Dia_Evolucion'' (\<lambda>r. dt_date (r c)) ?F"
  from cmp c have ev: "evol = groupby_size ''Dia_Evolucion'' ?cu ?F1"
    and rs: "resumen = value_counts (desempate e) (col_values ?cu ?F1)"
    by (auto simp add: comparativo_def Let_def split: if_splits)
  have ops1: "col_values ?cu ?F1 = ?ops"
    using resolver_col_u_neq[of ?f] by (simp add: col_values_def assign_def o_def)
  have pairs: "map (\<lambda>r. (r ''Dia_Evolucion'', r ?cu)) (rows ?F1)
      = map (\<lambda>r. (dt_date (r c), r ?cu)) (rows ?F)"
    using resolver_col_u_neq[of ?f] by (simp add: assign_def o_def)
  have dated: "\<forall>r \<in> set (rows ?F). dt_date (r c) \<noteq> Null"
    using filtrado_en_rango[OF c] en_rango_dt_date by blast
  have res: "sum_list (map snd (filter (\<lambda>p. fst p = u) resumen))
      = length (filter (\<lambda>v. v = u) (filter (\<lambda>v. v \<noteq> Null) ?ops))" for u
    using value_counts_sum_of[of u "desempate e" ?ops] rs ops1 by simp
  have evo: "sum_list (map snd (filter (\<lambda>g. snd (fst g) = u) evol))
      = length (filter (\<lambda>v. v = u) (filter (\<lambda>v. v \<noteq> Null) ?ops))" for u
  proof -
    have "sum_list (map snd (filter (\<lambda>g. snd (fst g) = u) evol))
        = length (filter (\<lambda>k. snd k = u)
            (filter (\<lambda>k. fst k \<noteq> Null \<and> snd k \<noteq> Null)
               (map (\<lambda>r. (dt_date (r c), r ?cu)) (rows ?F))))"
      using groupby_size_sum[of u "''Dia_Evolucion''" ?cu ?F1] ev pairs by simp
    also have "\<dots> = length (filter (\<lambda>v. v = u)
            (map snd (filter (\<lambda>k. fst k \<noteq> Null \<and> snd k \<noteq> Null)
               (map (\<lambda>r. (dt_date (r c), r ?cu)) (rows ?F)))))"
      by (rule length_filter_snd)
    also have "\<dots> = length (filter (\<lambda>v. v = u) (filter (\<lambda>v. v \<noteq> Null) (map (\<lambda>r. r ?cu) (rows ?F))))"
      by (simp only: keys_snd[OF dated, of "\<lambda>r. r ?cu"])
    finally show ?thesis by (simp add: col_values_def)
  qed
  have dis: "distinct (map fst resumen)" using rs value_counts_distinct by simp
  show ?thesis using dis res evo length_filter_count[of _ ?ops] by simp
qed

lemma seleccion_simps:
  "tipo_legalizacion seleccion = [Txt ''PPL'', Txt ''Convenios'']"
  "sel_usuarios seleccion = [Txt ''Ana'', Txt ''Beto'']"
  "start_date seleccion = 738886"
  "end_date seleccion = 738936"
  "to_datetime seleccion = fecha_iso"
  "desempate seleccion = (\<lambda>tabla p. 0)"
  by (simp_all add: seleccion_def ord_defs)

lemma filtrado_seleccion:
  "map (\<lambda>r. (r ''Usuario'', r ''Fecha'')) (rows (filtrado seleccion False ejemplo_rips))
     = [(Txt ''Ana'', Stamp 738886 0), (Txt ''Beto'', Stamp 738916 0), (Txt ''Ana'', Stamp 738917 0)]"
  by (simp add: frame_defs ejemplo_rips_def fila_def seleccion_simps iso_0101 iso_0131 iso_0201 iso_sin)

lemma columns_filtrado_seleccion:
  "columns (filtrado seleccion False ejemplo_rips) = [''Usuario'', ''Fecha'']"
  by (simp add: columns_filtrado ejemplo_rips_def)

lemma comparativo_seleccion:
  "comparativo seleccion ''Usuario'' (Some ''Fecha'') (filtrado seleccion False ejemplo_rips)
     = Inr (ModoComparativo 3
         (Some [((Day 738886, Txt ''Ana''), 1), ((Day 738916, Txt ''Beto''), 1),
                ((Day 738917, Txt ''Ana''), 1)])
         [(Txt ''Ana'', 2), (Txt ''Beto'', 1)])"
proof -
  let ?F = "filtrado seleccion False ejemplo_rips"
  have rs: "map (\<lambda>r. (r ''Usuario'', r ''Fecha'')) (rows ?F)
     = [(Txt ''Ana'', Stamp 738886 0), (Txt ''Beto'', Stamp 738916 0), (Txt ''Ana'', Stamp 738917 0)]"
    by (rule filtrado_seleccion)
  have "length (map (\<lambda>r. (r ''Usuario'', r ''Fecha'')) (rows ?F)) = 3"
    by (simp only: rs) simp
  then have len: "length (rows ?F) = 3" by simp
  have "map fst (map (\<lambda>r. (r ''Usuario'', r ''Fecha'')) (rows ?F))
      = [Txt ''Ana'', Txt ''Beto'', Txt ''Ana'']"
    by (simp only: rs) simp
  then have us: "map (\<lambda>r. r ''Usuario'') (rows ?F) = [Txt ''Ana'', Txt ''Beto'', Txt ''Ana'']"
    by (simp add: o_def)
  have "map (\<lambda>p. (dt_date (snd p), fst p)) (map (\<lambda>r. (r ''Usuario'', r ''Fecha'')) (rows ?F))
      = [(Day 738886, Txt ''Ana''), (Day 738916, Txt ''Beto''), (Day 738917, Txt ''Ana'')]"
    by (simp only: rs) (simp add: dt_date_def)
  then have ks: "map (\<lambda>r. (dt_date (r ''Fecha''), r ''Usuario'')) (rows ?F)
      = [(Day 738886, Txt ''Ana''), (Day 738916, Txt ''Beto''), (Day 738917, Txt ''Ana'')]"
    by (simp add: o_def)
  show ?thesis
    by (simp add: comparativo_def Let_def assign_def columns_filtrado_seleccion len
        groupby_size_def value_counts_def col_values_def o_def us ks unique_def cell_rank_def)
qed

theorem resumen_es_suma_diaria_witness:
  "fst (procesar_y_graficar seleccion (Some 0) False ejemplo_store)
     = Inr (ModoComparativo 3
         (Some [((Day 738886, Txt ''Ana''), 1), ((Day 738916, Txt ''Beto''), 1),
                ((Day 738917, Txt ''Ana''), 1)])
         [(Txt ''Ana'', 2), (Txt ''Beto'', 1)])
   \<and> sum_list (map snd (filter (\<lambda>p. fst p = Txt ''Ana'') [(Txt ''Ana'', 2::nat), (Txt ''Beto'', 1)]))
     = sum_list (map snd (filter (\<lambda>g. snd (fst g) = Txt ''Ana'')
         [((Day 738886, Txt ''Ana''), 1::nat), ((Day 738916, Txt ''Beto''), 1),
          ((Day 738917, Txt ''Ana''), 1)]))"
proof -
  have F: "objs ejemplo_store 0 = ejemplo_rips" by (simp add: ejemplo_store_def)
  have act: "es_filtro_activo seleccion" by (simp add: es_filtro_activo_def seleccion_simps)
  have ne: "rows (filtrado seleccion False ejemplo_rips) \<noteq> []"
    using filtrado_seleccion by auto
  have run: "fst (procesar_y_graficar seleccion (Some 0) False ejemplo_store)
     = Inr (ModoComparativo 3
         (Some [((Day 738886, Txt ''Ana''), 1), ((Day 738916, Txt ''Beto''), 1),
                ((Day 738917, Txt ''Ana''), 1)])
         [(Txt ''Ana'', 2), (Txt ''Beto'', 1)])"
    using procesar_vista[OF ejemplo_no_vacio, of seleccion False] act ne
      ejemplo_col_u ejemplo_col_f comparativo_seleccion
    by (simp add: resultado_def Let_def F ejemplo_rips_def)
  from resumen_es_suma_diaria[OF run] run show ?thesis by blast
qed

section \<open>Counts and percentages of the ranking\<close>

lemma tabla_porcentual_rows:
  "r \<in> set (tabla_porcentual counts) \<Longrightarrow>
     (fst r, fst (snd r)) \<in> set counts
     \<and> snd (snd r) = porcentaje (fst (snd r)) (sum_list (map snd counts))"
  by (auto simp add: tabla_porcentual_def Let_def)

lemma tabla_porcentual_counts:
  "map (\<lambda>r. (fst r, fst (snd r))) (tabla_porcentual counts) = counts"
  by (simp add: tabla_porcentual_def Let_def o_def)

lemma value_counts_rows:
  "(u, c) \<in> set (value_counts rank vs) \<Longrightarrow> u \<noteq> Null \<and> u \<in> set vs \<and> c = count_list vs u"
  by (auto simp add: value_counts_def Let_def count_list_filter_keep)

lemma value_counts_keys:
  "set (map fst (value_counts rank vs)) = {u \<in> set vs. u \<noteq> Null}"
  by (auto simp add: value_counts_def Let_def image_iff)

lemma value_counts_sorted:
  "sorted_wrt (\<lambda>p q. snd q \<le> snd p) (value_counts rank vs)"
proof -
  let ?xs = "filter (\<lambda>v. v \<noteq> Null) vs"
  let ?l = "map (\<lambda>u. (u, count_list ?xs u)) (unique ?xs)"
  let ?key = "\<lambda>p :: cell \<times> nat. (- int (snd p), rank ?l p)"
  have "sorted (map ?key (value_counts rank vs))"
    by (simp add: value_counts_def Let_def)
  then have "sorted_wrt (\<lambda>p q. ?key p \<le> ?key q) (value_counts rank vs)"
    by (simp add: sorted_map)
  moreover have "?key p \<le> ?key q \<Longrightarrow> snd q \<le> snd p" for p q
    by (auto simp add: less_eq_prod_def)
  ultimately show ?thesis
    by (rule sorted_wrt_mono_rel[rotated]) simp
qed

lemma sum_list_near:
  fixes g h :: "'a \<Rightarrow> rat"
  assumes "\<And>c. c \<in> set cs \<Longrightarrow> \<bar>g c - h c\<bar> \<le> B"
  shows "\<bar>sum_list (map g cs) - sum_list (map h cs)\<bar> \<le> of_nat (length cs) * B"
  using assms
proof (induction cs)
  case Nil
  then show ?case by simp
next
  case (Cons c cs)
  let ?A = "sum_list (map g cs)" and ?B = "sum_list (map h cs)"
  have b: "\<bar>g c - h c\<bar> \<le> B" using Cons.prems by simp
  have ih: "\<bar>?A - ?B\<bar> \<le> of_nat (length cs) * B" using Cons by simp
  have "\<bar>(g c + ?A) - (h c + ?B)\<bar> \<le> \<bar>g c - h c\<bar> + \<bar>?A - ?B\<bar>"
    by linarith
  also have "\<dots> \<le> B + of_nat (length cs) * B"
    using b ih by linarith
  finally show ?case by (simp add: distrib_right)
qed

lemma sum_scaled:
  "sum_list (map (\<lambda>p. 100 * of_nat (snd p) / t) ps) = 100 * of_nat (sum_list (map snd ps)) / (t :: rat)"
  by (induction ps) (simp_all add: add_divide_distrib distrib_left)

lemma sum_shares:
  assumes "0 < sum_list (map snd ps)"
  shows "sum_list (map (\<lambda>p. 100 * of_nat (snd p) / of_nat (sum_list (map snd ps))) ps) = (100 :: rat)"
proof -
  define t where "t = (of_nat (sum_list (map snd ps)) :: rat)"
  have pos: "0 < t" unfolding t_def using assms by (simp only: of_nat_0_less_iff)
  have "sum_list (map (\<lambda>p. 100 * of_nat (snd p) / t) ps) = 100 * t / t"
    unfolding t_def by (rule sum_scaled)
  also have "\<dots> = 100" using pos by simp
  finally show ?thesis unfolding t_def .
qed

text \<open>
  C3, as the code has it. In the general mode the metric is the number of filtered
  records. The ranking has exactly one row for each operator value that occurs in the
  filtered records, the missing value apart (\<open>value_counts\<close> drops it). Each row holds
  the operator's count in the filtered records and the percentage that line 131 computes
  in 64-bit floats, \<open>porcentaje count N\<close>, where \<open>N\<close> is the sum of the counts, that is
  the number of filtered records that have an operator value; that float is within
  0.005 + 1e-12 of 100 times count / \<open>N\<close>, and the percentages add up to 100 within 0.01
  times the number of rows.
\<close>

theorem porcentajes_del_ranking:
  assumes "fst (procesar_y_graficar e (Some a) leg s) = Inr (ModoGeneral n rk)"
  shows "n = length (rows (filtrado e leg (objs s a)))
    \<and> distinct (map fst rk)
    \<and> set (map fst rk)
        = {u \<in> set (col_values (resolver_col_u (objs s a)) (filtrado e leg (objs s a))). u \<noteq> Null}
    \<and> (\<forall>r \<in> set rk.
          fst (snd r) = count_list
              (col_values (resolver_col_u (objs s a)) (filtrado e leg (objs s a))) (fst r)
          \<and> snd (snd r) = porcentaje (fst (snd r))
              (length (filter (\<lambda>v. v \<noteq> Null)
                  (col_values (resolver_col_u (objs s a)) (filtrado e leg (objs s a)))))
          \<and> \<bar>snd (snd r) - 100 * of_nat (fst (snd r))
              / of_nat (length (filter (\<lambda>v. v \<noteq> Null)
                  (col_values (resolver_col_u (objs s a)) (filtrado e leg (objs s a)))))\<bar>
              \<le> 1 / 200 + 1 / 10 ^ 12)
    \<and> (rk \<noteq> [] \<longrightarrow>
          \<bar>sum_list (map (\<lambda>r. snd (snd r)) rk) - 100\<bar> \<le> of_nat (length rk) / 100)"
proof -
  let ?ops = "col_values (resolver_col_u (objs s a)) (filtrado e leg (objs s a))"
  let ?N = "length (filter (\<lambda>v. v \<noteq> Null) ?ops)"
  let ?vc = "value_counts (desempate e) ?ops"
  let ?h = "\<lambda>r :: cell \<times> nat \<times> rat. (fst r, fst (snd r))"
  from procesar_ModoGeneral[OF assms]
  have n: "n = length (rows (filtrado e leg (objs s a)))" and rk: "rk = tabla_porcentual ?vc"
    by simp_all
  have tot: "sum_list (map snd ?vc) = ?N"
    by (rule value_counts_sum)
  have vc: "map ?h rk = ?vc" using rk by (simp add: tabla_porcentual_counts)
  have "map fst rk = map fst (map ?h rk)" by (simp add: o_def)
  then have keys: "map fst rk = map fst ?vc" using vc by simp
  have d: "distinct (map fst rk)" using keys value_counts_distinct[of "desempate e" ?ops] by simp
  have k: "set (map fst rk) = {u \<in> set ?ops. u \<noteq> Null}"
    using keys value_counts_keys[of "desempate e" ?ops] by simp
  have row: "c = count_list ?ops u \<and> c \<le> ?N \<and> 0 < ?N" if "(u, c) \<in> set ?vc" for u c
  proof -
    from value_counts_rows[OF that] have u: "u \<noteq> Null" "u \<in> set ?ops" "c = count_list ?ops u"
      by simp_all
    have "count_list (filter (\<lambda>v. v \<noteq> Null) ?ops) u \<le> ?N" by (rule count_le_length)
    then have "c \<le> ?N" using u by (simp add: count_list_filter_keep)
    moreover have "u \<in> set (filter (\<lambda>v. v \<noteq> Null) ?ops)" using u by simp
    then have "0 < ?N" by (cases "filter (\<lambda>v. v \<noteq> Null) ?ops") auto
    ultimately show ?thesis using u by simp
  qed
  have each: "fst (snd r) = count_list ?ops (fst r)
      \<and> snd (snd r) = porcentaje (fst (snd r)) ?N
      \<and> \<bar>snd (snd r) - 100 * of_nat (fst (snd r)) / of_nat ?N\<bar> \<le> 1 / 200 + 1 / 10 ^ 12"
    if "r \<in> set rk" for r
  proof -
    from tabla_porcentual_rows[of r ?vc] that rk tot
    have m: "(fst r, fst (snd r)) \<in> set ?vc" and p: "snd (snd r) = porcentaje (fst (snd r)) ?N"
      by simp_all
    from row[OF m] have c: "fst (snd r) = count_list ?ops (fst r)" "fst (snd r) \<le> ?N" "0 < ?N"
      by simp_all
    from porcentaje_error[OF c(2,3)] show ?thesis using c(1) p by simp
  qed
  have sum: "\<bar>sum_list (map (\<lambda>r. snd (snd r)) rk) - 100\<bar> \<le> of_nat (length rk) / 100"
    if "rk \<noteq> []"
  proof -
    from that obtain r where r: "r \<in> set rk" by (cases rk) auto
    from tabla_porcentual_rows[of r ?vc] r rk have "(fst r, fst (snd r)) \<in> set ?vc" by simp
    from row[OF this] have pos: "0 < ?N" by simp
    let ?g = "\<lambda>p :: cell \<times> nat. porcentaje (snd p) ?N"
    let ?x = "\<lambda>p :: cell \<times> nat. (100 * of_nat (snd p) / of_nat ?N :: rat)"
    have "\<bar>?g p - ?x p\<bar> \<le> 1 / 100" if "p \<in> set ?vc" for p
    proof -
      from that have "(fst p, snd p) \<in> set ?vc" by simp
      from row[OF this] have "snd p \<le> ?N" "0 < ?N" by simp_all
      from porcentaje_error[OF this] show ?thesis by simp
    qed
    then have "\<bar>sum_list (map ?g ?vc) - sum_list (map ?x ?vc)\<bar> \<le> of_nat (length ?vc) * (1 / 100)"
      by (rule sum_list_near)
    moreover have "sum_list (map ?x ?vc) = 100"
      using sum_shares[of ?vc] pos tot by simp
    moreover have "map (\<lambda>r. snd (snd r)) rk = map ?g ?vc"
      using rk tot by (simp add: tabla_porcentual_def Let_def)
    moreover have "length rk = length ?vc" using rk by (simp add: tabla_porcentual_def Let_def)
    ultimately show ?thesis by simp
  qed
  show ?thesis using n d k each sum by blast
qed

lemma porcentaje_Suc:
  "porcentaje (Suc 0) (Suc 0) = 100"
  "porcentaje (Suc 0) (Suc (Suc 0)) = 50"
  using porcentaje_1_1 porcentaje_1_2 by (simp_all add: numeral_2_eq_2)

lemma resultado_con_faltante:
  "resultado ejemplo_entorno False con_faltante = Inr (ModoGeneral 2 [(Txt ''Ana'', 1, 100)])"
  by (simp add: resultado_def Let_def modo_general_def frame_defs con_faltante_def fila_def
      ejemplo_entorno_simps value_counts_def unique_def tabla_porcentual_def porcentaje_Suc)

lemma con_faltante_run:
  "fst (procesar_y_graficar ejemplo_entorno (Some 0) False store_ranking)
     = Inr (ModoGeneral 2 [(Txt ''Ana'', 1, 100)])"
proof -
  have "\<not> empty_df (objs store_ranking 0)"
    by (simp add: store_ranking_0 con_faltante_def empty_df_def)
  from procesar_vista[OF this, of ejemplo_entorno False] show ?thesis
    by (simp add: store_ranking_0 resultado_con_faltante)
qed

lemma ops_con_faltante:
  "col_values (resolver_col_u (objs store_ranking 0))
     (filtrado ejemplo_entorno False (objs store_ranking 0)) = [Txt ''Ana'', Null]"
  by (simp add: store_ranking_0 frame_defs con_faltante_def fila_def ejemplo_entorno_simps)

theorem porcentajes_del_ranking_witness:
  "length (rows (filtrado ejemplo_entorno False (objs store_ranking 0))) = 2
   \<and> {u \<in> set (col_values (resolver_col_u (objs store_ranking 0))
          (filtrado ejemplo_entorno False (objs store_ranking 0))). u \<noteq> Null} = {Txt ''Ana''}
   \<and> count_list (col_values (resolver_col_u (objs store_ranking 0))
        (filtrado ejemplo_entorno False (objs store_ranking 0))) (Txt ''Ana'') = 1
   \<and> porcentaje 1 (length (filter (\<lambda>v. v \<noteq> Null)
        (col_values (resolver_col_u (objs store_ranking 0))
           (filtrado ejemplo_entorno False (objs store_ranking 0))))) = 100
   \<and> \<bar>sum_list (map (\<lambda>r. snd (snd r)) [(Txt ''Ana'', 1::nat, 100::rat)]) - 100\<bar> \<le> 1 / 100"
  using porcentajes_del_ranking[OF con_faltante_run]
  by (simp add: ops_con_faltante)

text \<open>
  C3 as stated fails: of two filtered records one has no operator value; Ana's
  percentage is 100.00, while 100 times 1 / 2, computed and rounded as line 131 does, is
  50.00.
\<close>

theorem porcentaje_sobre_total_counterexample:
  "fst (procesar_y_graficar ejemplo_entorno (Some 0) False store_ranking)
     = Inr (ModoGeneral 2 [(Txt ''Ana'', 1, 100)])
   \<and> length (rows (filtrado ejemplo_entorno False (objs store_ranking 0))) = 2
   \<and> porcentaje 1 2 = 50"
proof -
  have "length (rows (filtrado ejemplo_entorno False (objs store_ranking 0))) = 2"
    by (simp add: store_ranking_0 frame_defs con_faltante_def ejemplo_entorno_simps)
  then show ?thesis using con_faltante_run porcentaje_1_2 by simp
qed

section \<open>The order of the ranking\<close>

lemma resultado_empate:
  "resultado ejemplo_entorno False empate
     = Inr (ModoGeneral 2 [(Txt ''Beto'', 1, 50), (Txt ''Ana'', 1, 50)])"
  by (simp add: resultado_def Let_def modo_general_def frame_defs empate_def fila_def
      ejemplo_entorno_simps value_counts_def unique_def tabla_porcentual_def porcentaje_Suc)

lemma empate_run:
  "fst (procesar_y_graficar ejemplo_entorno (Some 1) False store_ranking)
     = Inr (ModoGeneral 2 [(Txt ''Beto'', 1, 50), (Txt ''Ana'', 1, 50)])"
proof -
  have "\<not> empty_df (objs store_ranking 1)"
    by (simp add: store_ranking_1 empate_def empty_df_def)
  from procesar_vista[OF this, of ejemplo_entorno False] show ?thesis
    by (simp add: store_ranking_1 resultado_empate)
qed

lemma ejemplo_inverso_simps:
  "tipo_legalizacion ejemplo_inverso = [Txt ''PPL'', Txt ''Convenios'']"
  "sel_usuarios ejemplo_inverso = [Txt ''Todos'']"
  "start_date ejemplo_inverso = 738886"
  "end_date ejemplo_inverso = 738916"
  "to_datetime ejemplo_inverso = fecha_iso"
  "desempate ejemplo_inverso = (\<lambda>tabla p. length (takeWhile (\<lambda>q. q \<noteq> p) (rev tabla)))"
  by (simp_all add: ejemplo_inverso_def ejemplo_entorno_simps)

lemma resultado_empate_inverso:
  "resultado ejemplo_inverso False empate
     = Inr (ModoGeneral 2 [(Txt ''Ana'', 1, 50), (Txt ''Beto'', 1, 50)])"
  by (simp add: resultado_def Let_def modo_general_def frame_defs empate_def fila_def
      ejemplo_inverso_simps value_counts_def unique_def tabla_porcentual_def porcentaje_Suc)

lemma empate_inverso_run:
  "fst (procesar_y_graficar ejemplo_inverso (Some 1) False store_ranking)
     = Inr (ModoGeneral 2 [(Txt ''Ana'', 1, 50), (Txt ''Beto'', 1, 50)])"
proof -
  have "\<not> empty_df (objs store_ranking 1)"
    by (simp add: store_ranking_1 empate_def empty_df_def)
  from procesar_vista[OF this, of ejemplo_inverso False] show ?thesis
    by (simp add: store_ranking_1 resultado_empate_inverso)
qed

lemma ops_empate:
  "col_values (resolver_col_u (objs store_ranking 1))
     (filtrado ejemplo_entorno False (objs store_ranking 1)) = [Txt ''Beto'', Txt ''Ana'']"
  by (simp add: store_ranking_1 frame_defs empate_def fila_def ejemplo_entorno_simps)

text \<open>
  C4, as the code has it. In the general mode the rows are sorted by count, largest
  first, and they are the operators of the filtered records, each once, with its count.
  This holds whatever order the library's sort gives to equal counts; the code orders
  nothing by operator name.
\<close>

theorem orden_del_ranking:
  assumes "fst (procesar_y_graficar e (Some a) leg s) = Inr (ModoGeneral n rk)"
  shows "sorted_wrt (\<lambda>p q. fst (snd q) \<le> fst (snd p)) rk
    \<and> distinct (map fst rk)
    \<and> set (map fst rk)
        = {u \<in> set (col_values (resolver_col_u (objs s a)) (filtrado e leg (objs s a))). u \<noteq> Null}
    \<and> (\<forall>r \<in> set rk. fst (snd r) = count_list
          (col_values (resolver_col_u (objs s a)) (filtrado e leg (objs s a))) (fst r))"
proof -
  let ?ops = "col_values (resolver_col_u (objs s a)) (filtrado e leg (objs s a))"
  let ?vc = "value_counts (desempate e) ?ops"
  let ?h = "\<lambda>r :: cell \<times> nat \<times> rat. (fst r, fst (snd r))"
  from procesar_ModoGeneral[OF assms] have "rk = tabla_porcentual ?vc" by simp
  then have vc: "map ?h rk = ?vc" by (simp add: tabla_porcentual_counts)
  have "sorted_wrt (\<lambda>p q. snd q \<le> snd p) (map ?h rk)"
    using value_counts_sorted[of "desempate e" ?ops] vc by simp
  then have 1: "sorted_wrt (\<lambda>p q. fst (snd q) \<le> fst (snd p)) rk"
    by (simp add: sorted_wrt_map)
  have "map fst rk = map fst (map ?h rk)" by (simp add: o_def)
  then have keys: "map fst rk = map fst ?vc" using vc by simp
  have 2: "distinct (map fst rk)" using keys value_counts_distinct[of "desempate e" ?ops] by simp
  have 3: "set (map fst rk) = {u \<in> set ?ops. u \<noteq> Null}"
    using keys value_counts_keys[of "desempate e" ?ops] by simp
  have 4: "fst (snd r) = count_list ?ops (fst r)" if "r \<in> set rk" for r
  proof -
    from that have "?h r \<in> set (map ?h rk)" by (rule imageI[of r "set rk" ?h, simplified set_map[symmetric]])
    then have "(fst r, fst (snd r)) \<in> set ?vc" using vc by simp
    from value_counts_rows[OF this] show ?thesis by simp
  qed
  show ?thesis using 1 2 3 4 by blast
qed

theorem orden_del_ranking_witness:
  "sorted_wrt (\<lambda>p q. fst (snd q) \<le> fst (snd p)) [(Txt ''Beto'', 1::nat, 50::rat), (Txt ''Ana'', 1, 50)]
   \<and> {u \<in> set (col_values (resolver_col_u (objs store_ranking 1))
          (filtrado ejemplo_entorno False (objs store_ranking 1))). u \<noteq> Null}
      = {Txt ''Beto'', Txt ''Ana''}
   \<and> count_list (col_values (resolver_col_u (objs store_ranking 1))
          (filtrado ejemplo_entorno False (objs store_ranking 1))) (Txt ''Beto'') = 1
   \<and> count_list (col_values (resolver_col_u (objs store_ranking 1))
          (filtrado ejemplo_entorno False (objs store_ranking 1))) (Txt ''Ana'') = 1"
  using orden_del_ranking[OF empate_run]
  by (simp add: ops_empate)

text \<open>
  C4 as stated fails: Beto and Ana have one record each, Beto's comes first, and with a
  sort that leaves equal counts as it finds them the ranking lists Beto before Ana
  although \<open>Ana\<close> is the smaller name. (With the sort of \<open>ejemplo_inverso\<close> the same
  sheet gives Ana before Beto, lemma \<open>empate_inverso_run\<close>: the order of equal counts
  is the library's, not the code's.)
\<close>

theorem empate_por_nombre_counterexample:
  "fst (procesar_y_graficar ejemplo_entorno (Some 1) False store_ranking)
     = Inr (ModoGeneral 2 [(Txt ''Beto'', 1, 50), (Txt ''Ana'', 1, 50)])
   \<and> (''Ana'' :: string) < ''Beto''"
  using empate_run by simp

end
